theory Spec2Isabelle
  imports Complex_Main
begin

section \<open>Chladni plate explorer: a shallow embedding of physics.js and render.js\<close>

text \<open>
  JavaScript numbers are modelled as mathematical reals (\<^typ>\<open>real\<close>), integer-valued
  mode indices as \<^typ>\<open>int\<close>, array lengths and loop counters as \<^typ>\<open>nat\<close>. Rounding of
  IEEE doubles, NaN and the infinities are outside the model; every place where the
  source would produce one of them (a resolution of 1 gives the step 2/0) is named where
  it matters.
\<close>

subsection \<open>Built-ins of the JavaScript Math object used by the source\<close>

text \<open>\<open>Math.hypot(x, y)\<close>: the Euclidean norm of the pair.\<close>

definition hypot :: "real \<Rightarrow> real \<Rightarrow> real" where
  "hypot x y = sqrt (x * x + y * y)"

text \<open>
  \<open>Math.atan2(y, x)\<close>: the angle of the point \<open>(x, y)\<close> in \<open>(-\<pi>, \<pi>]\<close>, by the
  usual case distinction on the quadrant; \<open>atan2(0, 0)\<close> is \<open>0\<close>.
\<close>

definition atan2 :: "real \<Rightarrow> real \<Rightarrow> real" where
  "atan2 y x =
     (if 0 < x then arctan (y / x)
      else if x < 0 then (if 0 \<le> y then arctan (y / x) + pi else arctan (y / x) - pi)
      else if 0 < y then pi / 2
      else if y < 0 then - (pi / 2)
      else 0)"

subsection \<open>physics.js: mode shapes\<close>

text \<open>
  \<open>squareModeDisplacement(xNorm, yNorm, m, n)\<close>: the normalised point is mapped from
  \<open>[-1, 1]\<close> to \<open>[0, 1]\<close>; the diagonal \<open>m === n\<close> returns \<open>0\<close> before any cosine is
  evaluated.
\<close>

definition squareModeDisplacement :: "real \<Rightarrow> real \<Rightarrow> int \<Rightarrow> int \<Rightarrow> real" where
  "squareModeDisplacement xNorm yNorm m n =
     (let X = (xNorm + 1) * 0.5;
          Y = (yNorm + 1) * 0.5
      in if m = n then 0
         else
           let term1 = cos (real_of_int n * pi * X) * cos (real_of_int m * pi * Y);
               term2 = cos (real_of_int m * pi * X) * cos (real_of_int n * pi * Y)
           in term1 - term2)"

text \<open>\<open>radialMode(r, nRadial)\<close>: a damped cosine in the radius.\<close>

definition radialMode :: "real \<Rightarrow> int \<Rightarrow> real" where
  "radialMode r nRadial = cos (real_of_int nRadial * pi * r) * exp (- 1.2 * r * r)"

text \<open>
  \<open>circleModeDisplacement(xNorm, yNorm, m, nRadial)\<close>: zero outside the unit disc,
  otherwise the radial factor times the angular factor.
\<close>

definition circleModeDisplacement :: "real \<Rightarrow> real \<Rightarrow> int \<Rightarrow> int \<Rightarrow> real" where
  "circleModeDisplacement xNorm yNorm m nRadial =
     (let r = hypot xNorm yNorm
      in if 1 < r then 0
         else
           let theta = atan2 yNorm xNorm;
               angular = cos (real_of_int m * theta)
           in radialMode r nRadial * angular)"

subsection \<open>render.js: constants\<close>

definition F_MIN :: real where
  "F_MIN = 20"

definition F_MAX :: real where
  "F_MAX = 20000"

definition LOG_F_MIN :: real where
  "LOG_F_MIN = ln F_MIN"

definition LOG_F_MAX :: real where
  "LOG_F_MAX = ln F_MAX"

subsection \<open>render.js: mode objects and the two catalogs\<close>

text \<open>
  The plate shape is the string \<open>"square"\<close> or \<open>"circle"\<close>; the source tests
  \<open>shape === "square"\<close> and treats everything else as the circle.
\<close>

datatype Shape = Square | Circle

text \<open>
  A catalog entry is the object \<open>{m, n, modeIndex, baseFreq, eigenFreq}\<close> (square) or
  \<open>{m, nRadial, modeIndex, baseFreq, eigenFreq}\<close> (circle). The selectors are prefixed
  (\<open>mode_m\<close> for the field \<open>m\<close>) so that the one-letter field names stay free for
  variables. A field an object does not have (\<open>n\<close> of a circular mode) is unspecified
  here and \<open>undefined\<close> in JavaScript; the source never reads one.
\<close>

datatype Mode =
    SquareMode (mode_m: int) (mode_n: int) (modeIndex: real) (baseFreq: real) (eigenFreq: real)
  | CircleMode (mode_m: int) (mode_nRadial: int) (modeIndex: real) (baseFreq: real) (eigenFreq: real)

text \<open>
  The object \<open>{m, n, modeIndex}\<close> as the enumeration loops push it, before the two
  frequency fields are assigned: the two indices and the sort key.
\<close>

type_synonym ModeStub = "int \<times> int \<times> real"

definition stubIndex :: "ModeStub \<Rightarrow> real" where
  "stubIndex s = snd (snd s)"

text \<open>The nested loops of \<open>buildSquareModes\<close>: \<open>m\<close> outer, \<open>n\<close> inner, the diagonal skipped.\<close>

definition squareStubs :: "int \<Rightarrow> int \<Rightarrow> ModeStub list" where
  "squareStubs maxM maxN =
     concat (map (\<lambda>m. concat (map (\<lambda>n.
        if m = n then [] else [(m, n, sqrt (real_of_int (m * m + n * n)))]) [1..maxN])) [1..maxM])"

text \<open>The nested loops of \<open>buildCircleModes\<close>: \<open>m\<close> from \<open>0\<close>, \<open>nRadial\<close> from \<open>1\<close>.\<close>

definition circleStubs :: "int \<Rightarrow> int \<Rightarrow> ModeStub list" where
  "circleStubs maxM maxRadial =
     concat (map (\<lambda>m. map (\<lambda>nRadial.
        (m, nRadial, sqrt (real_of_int (m * m + nRadial * nRadial)))) [1..maxRadial]) [0..maxM])"

text \<open>
  \<open>tmp.sort((a, b) => a.modeIndex - b.modeIndex)\<close>. \<open>Array.prototype.sort\<close> is stable
  (ECMAScript 2019), and the comparator is a total preorder on the keys, so the result is
  the stable sort by \<open>modeIndex\<close>, which \<^const>\<open>sort_key\<close> computes.
\<close>

definition sortByModeIndex :: "ModeStub list \<Rightarrow> ModeStub list" where
  "sortByModeIndex tmp = sort_key stubIndex tmp"

text \<open>The body of the assignment loop: the base frequency of position \<open>i\<close> among \<open>N\<close>.\<close>

definition logUniformFreq :: "nat \<Rightarrow> nat \<Rightarrow> real" where
  "logUniformFreq N i =
     (let t = (if 1 < N then real i / (real N - 1) else 0);
          logF = LOG_F_MIN + t * (LOG_F_MAX - LOG_F_MIN)
      in exp logF)"

definition buildSquareModes :: "int \<Rightarrow> int \<Rightarrow> Mode list" where
  "buildSquareModes maxM maxN =
     (let tmp = sortByModeIndex (squareStubs maxM maxN);
          N = length tmp
      in map (\<lambda>i. case tmp ! i of (m, n, k) \<Rightarrow>
                let baseFreq = logUniformFreq N i
                in SquareMode m n k baseFreq baseFreq) [0..<N])"

definition buildCircleModes :: "int \<Rightarrow> int \<Rightarrow> Mode list" where
  "buildCircleModes maxM maxRadial =
     (let tmp = sortByModeIndex (circleStubs maxM maxRadial);
          N = length tmp
      in map (\<lambda>i. case tmp ! i of (m, nRadial, k) \<Rightarrow>
                let baseFreq = logUniformFreq N i
                in CircleMode m nRadial k baseFreq baseFreq) [0..<N])"

text \<open>The part of a finished entry that the enumeration produced.\<close>

fun stubOf :: "Mode \<Rightarrow> ModeStub" where
  "stubOf (SquareMode m n k b e) = (m, n, k)"
| "stubOf (CircleMode m nRadial k b e) = (m, nRadial, k)"

subsection \<open>render.js: the interpolation index of computeBlendInfo\<close>

text \<open>
  The interpolation index \<open>p\<close> of \<open>computeBlendInfo\<close>, as the source computes it from
  the clamped drive frequency, the plate size and the catalog length.
\<close>

definition blendPosition :: "real \<Rightarrow> real \<Rightarrow> nat \<Rightarrow> real" where
  "blendPosition driveHz plateSize N =
     (let fBase = driveHz * plateSize * plateSize;
          logFBase = ln (max F_MIN (min F_MAX fBase));
          t = (logFBase - LOG_F_MIN) / (LOG_F_MAX - LOG_F_MIN);
          tClamped = max 0 (min 1 t);
          p = tClamped * (real N - 1)
      in p)"

subsection \<open>render.js: the sampling passes of recomputeField\<close>

text \<open>The membership test of the first pass.\<close>

definition insidePlate :: "Shape \<Rightarrow> real \<Rightarrow> real \<Rightarrow> bool" where
  "insidePlate shape xNorm yNorm =
     (if shape = Square then \<bar>xNorm\<bar> \<le> 1 \<and> \<bar>yNorm\<bar> \<le> 1 else hypot xNorm yNorm \<le> 1)"

text \<open>The blended displacement \<open>val\<close> of an inside point.\<close>

definition blendedValue :: "Shape \<Rightarrow> Mode \<Rightarrow> Mode \<Rightarrow> real \<Rightarrow> real \<Rightarrow> real \<Rightarrow> real" where
  "blendedValue shape mode0 mode1 alpha xNorm yNorm =
     (if shape = Square then
        let v0 = squareModeDisplacement xNorm yNorm (mode_m mode0) (mode_n mode0);
            v1 = squareModeDisplacement xNorm yNorm (mode_m mode1) (mode_n mode1)
        in (1 - alpha) * v0 + alpha * v1
      else
        let v0 = circleModeDisplacement xNorm yNorm (mode_m mode0) (mode_nRadial mode0);
            v1 = circleModeDisplacement xNorm yNorm (mode_m mode1) (mode_nRadial mode1)
        in (1 - alpha) * v0 + alpha * v1)"

text \<open>
  The body of the inner loop of the first pass, on the pair of the amplitudes written so
  far (\<open>amplitudes[idx++] = ...\<close> appends) and the running maximum \<open>maxAbs\<close>. An outside
  point stores \<open>0\<close> and skips the maximum (\<open>continue\<close>).
\<close>

definition sampleCell ::
  "Shape \<Rightarrow> Mode \<Rightarrow> Mode \<Rightarrow> real \<Rightarrow> real \<Rightarrow> real \<Rightarrow> real list \<times> real \<Rightarrow> real list \<times> real" where
  "sampleCell shape mode0 mode1 alpha xNorm yNorm acc =
     (case acc of (amplitudes, maxAbs) \<Rightarrow>
        if \<not> insidePlate shape xNorm yNorm then (amplitudes @ [0], maxAbs)
        else
          let val = blendedValue shape mode0 mode1 alpha xNorm yNorm;
              absVal = \<bar>val\<bar>
          in (amplitudes @ [val], if maxAbs < absVal then absVal else maxAbs))"

text \<open>The first pass: rows \<open>j\<close> outside, columns \<open>i\<close> inside, starting from \<open>maxAbs = 0\<close>.\<close>

definition firstPass ::
  "Shape \<Rightarrow> Mode \<Rightarrow> Mode \<Rightarrow> real \<Rightarrow> nat \<Rightarrow> real \<Rightarrow> real list \<times> real" where
  "firstPass shape mode0 mode1 alpha res step =
     foldl (\<lambda>acc j.
        let yNorm = - 1 + real j * step
        in foldl (\<lambda>acc i.
             let xNorm = - 1 + real i * step
             in sampleCell shape mode0 mode1 alpha xNorm yNorm acc) acc [0..<res])
       ([], 0) [0..<res]"

text \<open>
  The body of the inner loop of the second pass, on the pair of the points collected so
  far and the read position \<open>idx\<close>; a nodal point pushes its two pixel coordinates.
\<close>

definition collectCell ::
  "real list \<Rightarrow> real \<Rightarrow> real \<Rightarrow> real \<Rightarrow> real \<Rightarrow> real \<Rightarrow> real \<Rightarrow> real list \<times> nat
     \<Rightarrow> real list \<times> nat" where
  "collectCell amplitudes threshold cx cy halfPlatePix xNorm yNorm acc =
     (case acc of (nodalPoints, idx) \<Rightarrow>
        let val = amplitudes ! idx
        in if \<bar>val\<bar> \<le> threshold then
             (let px = cx + xNorm * halfPlatePix;
                  py = cy - yNorm * halfPlatePix
              in (nodalPoints @ [px, py], idx + 1))
           else (nodalPoints, idx + 1))"

definition secondPass ::
  "real list \<Rightarrow> real \<Rightarrow> real \<Rightarrow> real \<Rightarrow> real \<Rightarrow> nat \<Rightarrow> real \<Rightarrow> real list \<times> nat" where
  "secondPass amplitudes threshold cx cy halfPlatePix res step =
     foldl (\<lambda>acc j.
        let yNorm = - 1 + real j * step
        in foldl (\<lambda>acc i.
             let xNorm = - 1 + real i * step
             in collectCell amplitudes threshold cx cy halfPlatePix xNorm yNorm acc) acc [0..<res])
       ([], 0) [0..<res]"

text \<open>
  What one sampling pass computes: the amplitude buffer, the maximum, the threshold and
  the flat list of pixel coordinates.
\<close>

record SampledField =
  fieldAmplitudes :: "real list"
  fieldMaxAbs :: real
  fieldThreshold :: real
  fieldPoints :: "real list"

text \<open>
  The sampling part of \<open>recomputeField\<close>, from \<open>const res = this.resolution\<close> on. The step
  is \<open>2 / (res - 1)\<close>; for \<open>res = 1\<close> the source divides by zero and all coordinates are
  NaN, which this model does not cover (the constructor sets \<open>res = 320\<close>). The buffer is a
  \<open>Float32Array\<close> of \<open>res * res\<close> entries filled in row-major order, so the read position
  of the second pass never leaves it; the rounding of the stored amplitudes to single
  precision is outside the model.
\<close>

definition sampleField ::
  "Shape \<Rightarrow> Mode \<Rightarrow> Mode \<Rightarrow> real \<Rightarrow> nat \<Rightarrow> real \<Rightarrow> real \<Rightarrow> real \<Rightarrow> real \<Rightarrow> SampledField" where
  "sampleField shape mode0 mode1 alpha res tau cx cy halfPlatePix =
     (let step = 2 / (real res - 1);
          pass1 = firstPass shape mode0 mode1 alpha res step;
          amplitudes = fst pass1;
          maxAbs = snd pass1;
          threshold = tau * (if 0 < maxAbs then maxAbs else 1);
          nodalPoints = fst (secondPass amplitudes threshold cx cy halfPlatePix res step)
      in \<lparr>fieldAmplitudes = amplitudes, fieldMaxAbs = maxAbs, fieldThreshold = threshold,
          fieldPoints = nodalPoints\<rparr>)"

text \<open>
  Two closed forms used to state what the passes compute. \<open>gridValue\<close> is the amplitude
  stored for the grid point in row \<open>j\<close> and column \<open>i\<close> (given as the pair \<open>(j, i)\<close>):
  the blended displacement inside the plate, \<open>0\<close> outside. \<open>nodalCell\<close> is what the
  second pass pushes for that point, given the stored amplitudes \<open>u\<close>.
\<close>

definition gridValue :: "Shape \<Rightarrow> Mode \<Rightarrow> Mode \<Rightarrow> real \<Rightarrow> real \<Rightarrow> nat \<times> nat \<Rightarrow> real" where
  "gridValue shape mode0 mode1 alpha step p =
     (let yNorm = - 1 + real (fst p) * step;
          xNorm = - 1 + real (snd p) * step
      in if insidePlate shape xNorm yNorm then blendedValue shape mode0 mode1 alpha xNorm yNorm
         else 0)"

definition nodalCell ::
  "(nat \<times> nat \<Rightarrow> real) \<Rightarrow> real \<Rightarrow> real \<Rightarrow> real \<Rightarrow> real \<Rightarrow> real \<Rightarrow> nat \<times> nat \<Rightarrow> real list" where
  "nodalCell u threshold cx cy halfPlatePix step p =
     (if \<bar>u p\<bar> \<le> threshold
      then [cx + (- 1 + real (snd p) * step) * halfPlatePix,
            cy - (- 1 + real (fst p) * step) * halfPlatePix]
      else [])"

subsection \<open>render.js: the renderer's state\<close>

text \<open>\<open>this.params\<close>: the three user-controlled parameters.\<close>

record Params =
  shape :: Shape
  plateSize :: real
  freqHz :: real

text \<open>
  The blend descriptor \<open>{shape, freqHz, plateSize, mode0, mode1, alpha}\<close>; \<open>null\<close> and
  \<open>undefined\<close> modes are \<^const>\<open>None\<close>. Where a local variable of the source has the name
  of a field, the local carries a prime below.
\<close>

record BlendInfo =
  shape :: Shape
  freqHz :: real
  plateSize :: real
  mode0 :: "Mode option"
  mode1 :: "Mode option"
  alpha :: real

text \<open>
  The fields of \<open>ChladniRenderer\<close> that the computations read or write. The canvas
  contributes its client width and height; the drawing context, the pixel ratio and the
  animation bookkeeping play no part in them.
\<close>

record Renderer =
  clientWidth :: real
  clientHeight :: real
  resolution :: nat
  dotSize :: real
  nodeThreshold :: real
  params :: Params
  cx :: real
  cy :: real
  halfPlatePix :: real
  nodalPoints :: "real list"
  squareModes :: "Mode list"
  circleModes :: "Mode list"
  blendInfo :: "BlendInfo option"

subsection \<open>render.js: updateModeFrequencies\<close>

text \<open>The assignment \<open>m.eigenFreq = v\<close> on one entry.\<close>

fun setEigenFreq :: "real \<Rightarrow> Mode \<Rightarrow> Mode" where
  "setEigenFreq v (SquareMode m n k b e) = SquareMode m n k b v"
| "setEigenFreq v (CircleMode m nRadial k b e) = CircleMode m nRadial k b v"

text \<open>\<open>this.params.plateSize || 1\<close>: a plate size of \<open>0\<close> is replaced by \<open>1\<close>.\<close>

definition updateModeFrequencies :: "Renderer \<Rightarrow> Renderer" where
  "updateModeFrequencies st =
     (let L = (if Params.plateSize (params st) = 0 then 1 else Params.plateSize (params st));
          scale = 1 / (L * L)
      in st\<lparr>squareModes := map (\<lambda>m. setEigenFreq (baseFreq m * scale) m) (squareModes st),
            circleModes := map (\<lambda>m. setEigenFreq (baseFreq m * scale) m) (circleModes st)\<rparr>)"

subsection \<open>render.js: computeBlendInfo\<close>

text \<open>\<open>modes[i]\<close>: \<open>undefined\<close> outside the array.\<close>

definition modeAt :: "Mode list \<Rightarrow> int \<Rightarrow> Mode option" where
  "modeAt modes i = (if 0 \<le> i \<and> i < int (length modes) then Some (modes ! nat i) else None)"

definition computeBlendInfo :: "Renderer \<Rightarrow> BlendInfo" where
  "computeBlendInfo st =
     (let shape' = Params.shape (params st);
          modes = (if shape' = Square then squareModes st else circleModes st);
          N = length modes
      in if N = 0 then
           \<lparr>BlendInfo.shape = shape',
            BlendInfo.freqHz = Params.freqHz (params st),
            BlendInfo.plateSize = Params.plateSize (params st),
            mode0 = None, mode1 = None, alpha = 0\<rparr>
         else
           let plateSize' = (if Params.plateSize (params st) = 0 then 1
                             else Params.plateSize (params st));
               driveHz = max F_MIN (min F_MAX (Params.freqHz (params st)));
               p = blendPosition driveHz plateSize' N;
               i0 = \<lfloor>p\<rfloor>;
               i1 = min (i0 + 1) (int N - 1);
               alpha' = p - real_of_int i0;
               mode0' = modeAt modes i0;
               mode1' = modeAt modes i1
           in \<lparr>BlendInfo.shape = shape', BlendInfo.freqHz = driveHz,
               BlendInfo.plateSize = plateSize',
               mode0 = mode0', mode1 = mode1', alpha = alpha'\<rparr>)"

subsection \<open>render.js: recomputeField\<close>

text \<open>
  \<open>recomputeField\<close>: the guard \<open>!width || !height || !mode0 || !mode1\<close> leaves an empty
  point list; otherwise the plate geometry is stored and the field sampled.
\<close>

definition recomputeField :: "Renderer \<Rightarrow> Renderer" where
  "recomputeField st =
     (let blend = computeBlendInfo st;
          st1 = st\<lparr>blendInfo := Some blend\<rparr>;
          width = clientWidth st;
          height = clientHeight st
      in case (BlendInfo.mode0 blend, BlendInfo.mode1 blend) of
           (Some mode0', Some mode1') \<Rightarrow>
             if width = 0 \<or> height = 0 then st1\<lparr>nodalPoints := []\<rparr>
             else
               let minDim = min width height;
                   halfPlatePix' = 0.45 * minDim * BlendInfo.plateSize blend;
                   cx' = width / 2;
                   cy' = height / 2;
                   sampled = sampleField (BlendInfo.shape blend) mode0' mode1'
                               (BlendInfo.alpha blend) (resolution st) (nodeThreshold st)
                               cx' cy' halfPlatePix'
               in st1\<lparr>cx := cx', cy := cy', halfPlatePix := halfPlatePix',
                       nodalPoints := fieldPoints sampled\<rparr>
         | _ \<Rightarrow> st1\<lparr>nodalPoints := []\<rparr>)"

text \<open>
  How \<open>drawNodalPoints\<close> reads the flat list: \<open>x = points[i]\<close>, \<open>y = points[i + 1]\<close>,
  \<open>i\<close> advancing by two.
\<close>

fun pointPairs :: "real list \<Rightarrow> (real \<times> real) list" where
  "pointPairs (x # y # rest) = (x, y) # pointPairs rest"
| "pointPairs rest = []"

subsection \<open>render.js: the constructor and updateParams\<close>

text \<open>The field initialisers of the constructor, for a canvas of the given client size.\<close>

definition initialRenderer :: "real \<Rightarrow> real \<Rightarrow> Renderer" where
  "initialRenderer w h =
     \<lparr>clientWidth = w, clientHeight = h, resolution = 320, dotSize = 1.4,
      nodeThreshold = 0.08,
      params = \<lparr>Params.shape = Square, Params.plateSize = 0.9, Params.freqHz = 440\<rparr>,
      cx = 0, cy = 0, halfPlatePix = 0, nodalPoints = [],
      squareModes = buildSquareModes 7 7, circleModes = buildCircleModes 7 7,
      blendInfo = None\<rparr>"

definition newRenderer :: "real \<Rightarrow> real \<Rightarrow> Renderer" where
  "newRenderer w h = recomputeField (updateModeFrequencies (initialRenderer w h))"

text \<open>The partial parameter object passed to \<open>updateParams\<close>; an absent key is \<^const>\<open>None\<close>.\<close>

record ParamsUpdate =
  newShape :: "Shape option"
  newPlateSize :: "real option"
  newFreqHz :: "real option"

definition assignParams :: "Params \<Rightarrow> ParamsUpdate \<Rightarrow> Params" where
  "assignParams old new =
     \<lparr>Params.shape = (case newShape new of None \<Rightarrow> Params.shape old | Some s \<Rightarrow> s),
      Params.plateSize = (case newPlateSize new of None \<Rightarrow> Params.plateSize old | Some l \<Rightarrow> l),
      Params.freqHz = (case newFreqHz new of None \<Rightarrow> Params.freqHz old | Some f \<Rightarrow> f)\<rparr>"

definition updateParams :: "Renderer \<Rightarrow> ParamsUpdate \<Rightarrow> Renderer" where
  "updateParams st newParams =
     (let oldSize = Params.plateSize (params st);
          st1 = st\<lparr>params := assignParams (params st) newParams\<rparr>;
          st2 = (case newPlateSize newParams of
                   None \<Rightarrow> st1
                 | Some l \<Rightarrow> if l = oldSize then st1 else updateModeFrequencies st1)
      in recomputeField st2)"

subsection \<open>render.js: getActiveModeSummary\<close>

text \<open>\<open>{ ...mode, weight: w }\<close>: a copy of the entry with its blend weight.\<close>

record WeightedMode =
  mode :: Mode
  weight :: real

record ModeSummary =
  shape :: Shape
  freqHz :: real
  plateSize :: real
  alpha :: real
  mode0 :: "Mode option"
  mode1 :: "Mode option"
  primaryMode :: "WeightedMode option"
  secondaryMode :: "WeightedMode option"
  closestMode :: "Mode option"
  closestEigenFreq :: "real option"
  detuning :: "real option"

text \<open>
  The body of the \<open>forEach\<close> that finds the closest eigenfrequency, on the pair
  \<open>(closest, bestDiff)\<close>; \<open>bestDiff = Infinity\<close> is \<^const>\<open>None\<close>.
\<close>

definition closestStep :: "real \<Rightarrow> Mode option \<times> real option \<Rightarrow> Mode \<Rightarrow> Mode option \<times> real option" where
  "closestStep freqHz' acc m =
     (case acc of (closest, bestDiff) \<Rightarrow>
        let diff = \<bar>eigenFreq m - freqHz'\<bar>
        in if (case bestDiff of None \<Rightarrow> True | Some b \<Rightarrow> diff < b) then (Some m, Some diff)
           else (closest, bestDiff))"

text \<open>The summary of a blend descriptor over the catalog of its shape.\<close>

definition summarize :: "BlendInfo \<Rightarrow> Mode list \<Rightarrow> ModeSummary" where
  "summarize blend modes =
     (let alpha' = BlendInfo.alpha blend;
          found = foldl (closestStep (BlendInfo.freqHz blend)) (None, None) modes;
          closest = fst found;
          bestDiff = snd found;
          labelled =
            (case (BlendInfo.mode0 blend, BlendInfo.mode1 blend) of
               (Some mode0', Some mode1') \<Rightarrow>
                 if alpha' < 0.5 then
                   (Some \<lparr>mode = mode0', weight = 1 - alpha'\<rparr>,
                    Some \<lparr>mode = mode1', weight = alpha'\<rparr>)
                 else
                   (Some \<lparr>mode = mode1', weight = alpha'\<rparr>,
                    Some \<lparr>mode = mode0', weight = 1 - alpha'\<rparr>)
             | _ \<Rightarrow> (None, None))
      in \<lparr>ModeSummary.shape = BlendInfo.shape blend,
          ModeSummary.freqHz = BlendInfo.freqHz blend,
          ModeSummary.plateSize = BlendInfo.plateSize blend,
          ModeSummary.alpha = alpha',
          ModeSummary.mode0 = BlendInfo.mode0 blend,
          ModeSummary.mode1 = BlendInfo.mode1 blend,
          primaryMode = fst labelled,
          secondaryMode = snd labelled,
          closestMode = closest,
          closestEigenFreq = map_option eigenFreq closest,
          detuning = (case closest of None \<Rightarrow> None | Some c \<Rightarrow> bestDiff)\<rparr>)"

text \<open>
  \<open>getActiveModeSummary\<close>: a missing \<open>this.blendInfo\<close> is computed and stored first; the
  catalog is chosen by the descriptor's shape.
\<close>

definition getActiveModeSummary :: "Renderer \<Rightarrow> Renderer \<times> ModeSummary" where
  "getActiveModeSummary st =
     (let blend = (case blendInfo st of None \<Rightarrow> computeBlendInfo st | Some b \<Rightarrow> b);
          modes = (if BlendInfo.shape blend = Square then squareModes st else circleModes st)
      in (st\<lparr>blendInfo := Some blend\<rparr>, summarize blend modes))"

subsection \<open>An invariant of the two catalogs\<close>

text \<open>
  The catalogs of the renderer are the catalogs as built, with every eigenfrequency
  rescaled for the current plate size (\<open>0\<close> read as \<open>1\<close>, as \<open>updateModeFrequencies\<close>
  does).
\<close>

definition catalogsScaled :: "Renderer \<Rightarrow> bool" where
  "catalogsScaled st =
     (let L = (if Params.plateSize (params st) = 0 then 1 else Params.plateSize (params st));
          scale = 1 / (L * L)
      in squareModes st = map (\<lambda>m. setEigenFreq (baseFreq m * scale) m) (buildSquareModes 7 7)
         \<and> circleModes st = map (\<lambda>m. setEigenFreq (baseFreq m * scale) m) (buildCircleModes 7 7))"

subsection \<open>Concrete inputs used below\<close>

text \<open>
  What the user interface can do after the page has loaded on a 600 by 400 canvas: one
  call \<open>updateParams({plateSize: 1, freqHz: f})\<close>, with the frequency
  \<open>f = 20 \<sqdot> 1000\<^bsup>q/41\<^esup>\<close> that lies at position \<open>q\<close> of the 42 square modes.
\<close>

definition sweepParams :: "real \<Rightarrow> ParamsUpdate" where
  "sweepParams q =
     \<lparr>newShape = None, newPlateSize = Some 1, newFreqHz = Some (20 * 1000 powr (q / 41))\<rparr>"

definition sweepRenderer :: "real \<Rightarrow> Renderer" where
  "sweepRenderer q = updateParams (newRenderer 600 400) (sweepParams q)"

text \<open>
  A blend descriptor with \<open>alpha\<close> exactly \<open>1/2\<close> and both modes present: the first two
  entries of the square catalog with equal weights.
\<close>

definition tieBlend :: BlendInfo where
  "tieBlend =
     \<lparr>BlendInfo.shape = Square, BlendInfo.freqHz = 440, BlendInfo.plateSize = 1,
      mode0 = Some (SquareMode 1 2 (sqrt 5) 20 20),
      mode1 = Some (SquareMode 2 1 (sqrt 5) (20 * 1000 powr (1 / 41)) (20 * 1000 powr (1 / 41))),
      alpha = 1 / 2\<rparr>"

text \<open>
  The sampling pass of \<open>sweepRenderer (2/5)\<close>: the constructor's resolution and threshold
  fraction, the first two square modes blended with \<open>alpha = 2/5\<close>.
\<close>

definition lowField :: SampledField where
  "lowField = sampleField Square (SquareMode 1 2 (sqrt 5) 20 20)
                (SquareMode 2 1 (sqrt 5) (20 * 1000 powr (1 / 41)) (20 * 1000 powr (1 / 41)))
                (2 / 5) 320 0.08 300 200 180"

text \<open>The freshly initialised renderer switched to the circular plate.\<close>

definition circleRenderer :: Renderer where
  "circleRenderer =
     (initialRenderer 600 400)
       \<lparr>params := \<lparr>Params.shape = Circle, Params.plateSize = 0.9, Params.freqHz = 440\<rparr>\<rparr>"

section \<open>Properties of the mode shapes\<close>

text \<open>
  The model of \<open>Math.atan2\<close> is the polar angle: away from the origin, \<open>hypot\<close> and
  \<open>atan2\<close> are the polar coordinates of the point, with the angle in \<open>(-\<pi>, \<pi>]\<close>.
\<close>

lemma hypot_pos: "x \<noteq> 0 \<or> y \<noteq> 0 \<Longrightarrow> 0 < hypot x y"
  by (simp add: hypot_def sum_squares_gt_zero_iff)

lemma arctan_polar_right:
  assumes "0 < x"
  shows "cos (arctan (y / x)) = x / hypot x y" "sin (arctan (y / x)) = y / hypot x y"
proof -
  have "1 + (y / x)\<^sup>2 = (x * x + y * y) / x\<^sup>2"
    using assms by (simp add: field_simps power2_eq_square)
  then have s: "sqrt (1 + (y / x)\<^sup>2) = hypot x y / x"
    using assms by (simp add: hypot_def real_sqrt_divide)
  show "cos (arctan (y / x)) = x / hypot x y" by (simp add: cos_arctan s)
  show "sin (arctan (y / x)) = y / hypot x y" using assms by (simp add: sin_arctan s)
qed

lemma arctan_polar_left:
  assumes "x < 0"
  shows "cos (arctan (y / x)) = - x / hypot x y" "sin (arctan (y / x)) = - y / hypot x y"
proof -
  have "1 + (y / x)\<^sup>2 = (x * x + y * y) / x\<^sup>2"
    using assms by (simp add: field_simps power2_eq_square)
  then have s: "sqrt (1 + (y / x)\<^sup>2) = hypot x y / (- x)"
    using assms by (simp add: hypot_def real_sqrt_divide)
  show "cos (arctan (y / x)) = - x / hypot x y" by (simp add: cos_arctan s)
  show "sin (arctan (y / x)) = - y / hypot x y" using assms by (simp add: sin_arctan s)
qed

lemma atan2_polar:
  assumes "x \<noteq> 0 \<or> y \<noteq> 0"
  shows "x = hypot x y * cos (atan2 y x)" "y = hypot x y * sin (atan2 y x)"
    "- pi < atan2 y x" "atan2 y x \<le> pi"
proof -
  have h: "0 < hypot x y" by (rule hypot_pos[OF assms])
  have b: "- (pi / 2) < arctan (y / x)" "arctan (y / x) < pi / 2"
    by (rule arctan_lbound, rule arctan_ubound)
  consider "0 < x" | "x < 0" "0 \<le> y" | "x < 0" "y < 0" | "x = 0" "0 < y" | "x = 0" "y < 0"
    using assms by linarith
  then have "x = hypot x y * cos (atan2 y x) \<and> y = hypot x y * sin (atan2 y x)
       \<and> - pi < atan2 y x \<and> atan2 y x \<le> pi"
  proof cases
    case 1
    then show ?thesis using h b arctan_polar_right[OF 1, of y] by (simp add: atan2_def)
  next
    case 2
    have "y / x \<le> 0" using 2 by (simp add: divide_nonneg_neg)
    then have "arctan (y / x) \<le> 0" by (simp add: arctan_le_zero_iff)
    then show ?thesis using 2 h b arctan_polar_left[OF 2(1), of y] by (simp add: atan2_def)
  next
    case 3
    then have "0 < y / x" by (simp add: divide_neg_neg)
    then have "0 < arctan (y / x)" by (simp add: zero_less_arctan_iff)
    then show ?thesis using 3 h b arctan_polar_left[OF 3(1), of y] by (simp add: atan2_def)
  next
    case 4
    then show ?thesis by (simp add: atan2_def hypot_def)
  next
    case 5
    have "- (pi / 2) \<le> pi" using pi_gt_zero by linarith
    with 5 show ?thesis by (simp add: atan2_def hypot_def)
  qed
  then show "x = hypot x y * cos (atan2 y x)" "y = hypot x y * sin (atan2 y x)"
    "- pi < atan2 y x" "atan2 y x \<le> pi" by blast+
qed

text \<open>
  C4: for every normalised point and all integer indices, the square displacement is
  exactly \<open>0\<close> when \<open>m = n\<close>, and otherwise
  \<open>cos(n\<pi>X) cos(m\<pi>Y) - cos(m\<pi>X) cos(n\<pi>Y)\<close> with \<open>X = (xn + 1) / 2\<close> and
  \<open>Y = (yn + 1) / 2\<close>.
\<close>

theorem squareModeDisplacement_value:
  "squareModeDisplacement xn yn m n =
     (if m = n then 0
      else cos (real_of_int n * pi * ((xn + 1) / 2)) * cos (real_of_int m * pi * ((yn + 1) / 2))
         - cos (real_of_int m * pi * ((xn + 1) / 2)) * cos (real_of_int n * pi * ((yn + 1) / 2)))"
  by (simp add: squareModeDisplacement_def Let_def)

text \<open>
  C5: for every normalised point and all integer indices, the circular displacement is
  exactly \<open>0\<close> when the point lies outside the unit disc (\<open>hypot xn yn > 1\<close>), and
  otherwise \<open>cos(m\<theta>) cos(nr \<pi> r) exp(-1.2 r\<^sup>2)\<close> with \<open>r = hypot xn yn\<close>, the Euclidean
  norm, and \<open>\<theta> = atan2 yn xn\<close>.
\<close>

theorem circleModeDisplacement_value:
  "circleModeDisplacement xn yn m nr =
     (if 1 < hypot xn yn then 0
      else cos (real_of_int m * atan2 yn xn) * cos (real_of_int nr * pi * hypot xn yn)
           * exp (- 1.2 * (hypot xn yn)\<^sup>2))
   \<and> hypot xn yn = sqrt (xn\<^sup>2 + yn\<^sup>2)"
  by (simp add: circleModeDisplacement_def radialMode_def hypot_def Let_def power2_eq_square
      mult.assoc mult.commute mult.left_commute)

section \<open>Properties of the mode catalogs\<close>

lemma stubOf_buildSquareModes:
  "map stubOf (buildSquareModes maxM maxN) = sortByModeIndex (squareStubs maxM maxN)"
  by (simp add: buildSquareModes_def Let_def split_def map_nth cong: map_cong)

lemma stubOf_buildCircleModes:
  "map stubOf (buildCircleModes maxM maxRadial) = sortByModeIndex (circleStubs maxM maxRadial)"
  by (simp add: buildCircleModes_def Let_def split_def map_nth cong: map_cong)

lemma modeIndex_stubOf: "modeIndex e = stubIndex (stubOf e)"
  by (cases e) (simp_all add: stubIndex_def)

lemma map_modeIndex: "map modeIndex xs = map stubIndex (map stubOf xs)"
  by (simp add: modeIndex_stubOf)

lemma sorted_sortByModeIndex: "sorted (map stubIndex (sortByModeIndex tmp))"
  by (simp add: sortByModeIndex_def)

lemma stable_sortByModeIndex:
  "filter (\<lambda>s. stubIndex s = k) (sortByModeIndex tmp) = filter (\<lambda>s. stubIndex s = k) tmp"
  unfolding sortByModeIndex_def by (rule sort_key_stable)

lemma set_sortByModeIndex: "set (sortByModeIndex tmp) = set tmp"
  by (simp add: sortByModeIndex_def)

lemma squareStubs_key:
  "s \<in> set (squareStubs maxM maxN) \<Longrightarrow>
   stubIndex s = sqrt (real_of_int ((fst s)\<^sup>2 + (fst (snd s))\<^sup>2))"
  by (auto simp: squareStubs_def stubIndex_def power2_eq_square split: if_splits)

lemma circleStubs_key:
  "s \<in> set (circleStubs maxM maxRadial) \<Longrightarrow>
   stubIndex s = sqrt (real_of_int ((fst s)\<^sup>2 + (fst (snd s))\<^sup>2))"
  by (auto simp: circleStubs_def stubIndex_def power2_eq_square)

lemma baseFreq_buildSquareModes:
  "i < length (buildSquareModes maxM maxN) \<Longrightarrow>
   baseFreq (buildSquareModes maxM maxN ! i)
     = logUniformFreq (length (buildSquareModes maxM maxN)) i"
  by (simp add: buildSquareModes_def Let_def split: prod.splits)

lemma baseFreq_buildCircleModes:
  "i < length (buildCircleModes maxM maxRadial) \<Longrightarrow>
   baseFreq (buildCircleModes maxM maxRadial ! i)
     = logUniformFreq (length (buildCircleModes maxM maxRadial)) i"
  by (simp add: buildCircleModes_def Let_def split: prod.splits)

lemma logUniformFreq_value:
  "logUniformFreq N i =
     (if N \<le> 1 then 20 else exp (ln 20 + real i / (real N - 1) * (ln 20000 - ln 20)))"
  by (simp add: logUniformFreq_def Let_def LOG_F_MIN_def LOG_F_MAX_def F_MIN_def F_MAX_def)

lemma length_buildSquareModes_7_7: "length (buildSquareModes 7 7) = 42"
  by (simp add: buildSquareModes_def sortByModeIndex_def squareStubs_def Let_def upto_rec1)

lemma length_buildCircleModes_7_7: "length (buildCircleModes 7 7) = 56"
  by (simp add: buildCircleModes_def sortByModeIndex_def circleStubs_def Let_def upto_rec1)

lemma length_buildSquareModes_1_2: "length (buildSquareModes 1 2) = 1"
  by (simp add: buildSquareModes_def sortByModeIndex_def squareStubs_def Let_def upto_rec1)

text \<open>
  C6: in a catalog of \<open>N\<close> modes built for either shape, the base frequency of the entry
  at position \<open>i\<close> is \<open>exp (ln 20 + (i / (N - 1)) (ln 20000 - ln 20))\<close>; a catalog with a
  single entry gives it the base frequency \<open>20\<close>.
\<close>

theorem catalog_baseFreq:
  assumes "modes = buildSquareModes maxM maxN \<or> modes = buildCircleModes maxM maxN"
    and "i < length modes"
  shows "baseFreq (modes ! i) =
          (if length modes = 1 then 20
           else exp (ln 20 + real i / (real (length modes) - 1) * (ln 20000 - ln 20)))"
  using assms
  by (auto simp: baseFreq_buildSquareModes baseFreq_buildCircleModes logUniformFreq_value)

theorem catalog_baseFreq_witness:
  "baseFreq (buildSquareModes 7 7 ! 41) = exp (ln 20 + 41 / 41 * (ln 20000 - ln 20))
   \<and> baseFreq (buildCircleModes 7 7 ! 0) = exp (ln 20 + 0 / 55 * (ln 20000 - ln 20))
   \<and> baseFreq (buildSquareModes 1 2 ! 0) = 20"
  using catalog_baseFreq[of "buildSquareModes 7 7" 7 7 41]
    catalog_baseFreq[of "buildCircleModes 7 7" 7 7 0]
    catalog_baseFreq[of "buildSquareModes 1 2" 1 2 0]
  by (simp add: length_buildSquareModes_7_7 length_buildCircleModes_7_7
      length_buildSquareModes_1_2)

text \<open>
  C7: for both shapes the \<open>modeIndex\<close> sequence of the built catalog is non-decreasing;
  the entries of any one \<open>modeIndex\<close> value stand in the order in which the enumeration
  loops produced them (the sort is stable); and \<open>modeIndex\<close> is the square root of the
  sum of the squares of the entry's two integer indices.
\<close>

theorem catalog_sorted_stable:
  "sorted (map modeIndex (buildSquareModes maxM maxN))
   \<and> sorted (map modeIndex (buildCircleModes maxM maxRadial))
   \<and> filter (\<lambda>s. stubIndex s = k) (map stubOf (buildSquareModes maxM maxN))
       = filter (\<lambda>s. stubIndex s = k) (squareStubs maxM maxN)
   \<and> filter (\<lambda>s. stubIndex s = k) (map stubOf (buildCircleModes maxM maxRadial))
       = filter (\<lambda>s. stubIndex s = k) (circleStubs maxM maxRadial)
   \<and> map modeIndex (buildSquareModes maxM maxN)
       = map (\<lambda>e. sqrt (real_of_int ((mode_m e)\<^sup>2 + (mode_n e)\<^sup>2)))
           (buildSquareModes maxM maxN)
   \<and> map modeIndex (buildCircleModes maxM maxRadial)
       = map (\<lambda>e. sqrt (real_of_int ((mode_m e)\<^sup>2 + (mode_nRadial e)\<^sup>2)))
           (buildCircleModes maxM maxRadial)"
proof -
  have sq: "set (map stubOf (buildSquareModes maxM maxN)) = set (squareStubs maxM maxN)"
    unfolding stubOf_buildSquareModes by (rule set_sortByModeIndex)
  have ci: "set (map stubOf (buildCircleModes maxM maxRadial)) = set (circleStubs maxM maxRadial)"
    unfolding stubOf_buildCircleModes by (rule set_sortByModeIndex)
  have isSq: "\<exists>m n k b e'. e = SquareMode m n k b e'"
    if "e \<in> set (buildSquareModes maxM maxN)" for e
    using that by (auto simp: buildSquareModes_def Let_def split: prod.splits)
  have isCi: "\<exists>m n k b e'. e = CircleMode m n k b e'"
    if "e \<in> set (buildCircleModes maxM maxRadial)" for e
    using that by (auto simp: buildCircleModes_def Let_def split: prod.splits)
  have k1: "modeIndex e = sqrt (real_of_int ((mode_m e)\<^sup>2 + (mode_n e)\<^sup>2))"
    if "e \<in> set (buildSquareModes maxM maxN)" for e
  proof -
    from that have "stubOf e \<in> set (squareStubs maxM maxN)" using sq by auto
    from squareStubs_key[OF this] isSq[OF that] show ?thesis
      by (auto simp: stubIndex_def)
  qed
  have k2: "modeIndex e = sqrt (real_of_int ((mode_m e)\<^sup>2 + (mode_nRadial e)\<^sup>2))"
    if "e \<in> set (buildCircleModes maxM maxRadial)" for e
  proof -
    from that have "stubOf e \<in> set (circleStubs maxM maxRadial)" using ci by auto
    from circleStubs_key[OF this] isCi[OF that] show ?thesis
      by (auto simp: stubIndex_def)
  qed
  have s1: "sorted (map modeIndex (buildSquareModes maxM maxN))"
    unfolding map_modeIndex stubOf_buildSquareModes by (rule sorted_sortByModeIndex)
  have s2: "sorted (map modeIndex (buildCircleModes maxM maxRadial))"
    unfolding map_modeIndex stubOf_buildCircleModes by (rule sorted_sortByModeIndex)
  have f1: "filter (\<lambda>s. stubIndex s = k) (map stubOf (buildSquareModes maxM maxN))
       = filter (\<lambda>s. stubIndex s = k) (squareStubs maxM maxN)"
    unfolding stubOf_buildSquareModes by (rule stable_sortByModeIndex)
  have f2: "filter (\<lambda>s. stubIndex s = k) (map stubOf (buildCircleModes maxM maxRadial))
       = filter (\<lambda>s. stubIndex s = k) (circleStubs maxM maxRadial)"
    unfolding stubOf_buildCircleModes by (rule stable_sortByModeIndex)
  have m1: "map modeIndex (buildSquareModes maxM maxN)
       = map (\<lambda>e. sqrt (real_of_int ((mode_m e)\<^sup>2 + (mode_n e)\<^sup>2)))
           (buildSquareModes maxM maxN)"
    by (rule map_cong[OF refl]) (rule k1)
  have m2: "map modeIndex (buildCircleModes maxM maxRadial)
       = map (\<lambda>e. sqrt (real_of_int ((mode_m e)\<^sup>2 + (mode_nRadial e)\<^sup>2)))
           (buildCircleModes maxM maxRadial)"
    by (rule map_cong[OF refl]) (rule k2)
  from s1 s2 f1 f2 m1 m2 show ?thesis by blast
qed

subsection \<open>The first two entries of the square catalog\<close>

lemma sorted_min_prefix:
  fixes f :: "'a \<Rightarrow> real"
  shows "sorted (map f ys) \<Longrightarrow> (\<And>y. y \<in> set ys \<Longrightarrow> k \<le> f y) \<Longrightarrow>
   ys = filter (\<lambda>y. f y = k) ys @ filter (\<lambda>y. f y \<noteq> k) ys"
proof (induction ys)
  case Nil
  then show ?case by simp
next
  case (Cons y ys)
  have tail: "sorted (map f ys)" and le: "\<And>z. z \<in> set ys \<Longrightarrow> f y \<le> f z"
    using Cons.prems(1) by auto
  have IH: "ys = filter (\<lambda>y. f y = k) ys @ filter (\<lambda>y. f y \<noteq> k) ys"
    by (rule Cons.IH[OF tail]) (simp add: Cons.prems(2))
  show ?case
  proof (cases "f y = k")
    case True
    with IH show ?thesis by simp
  next
    case False
    have "k < f y" using False Cons.prems(2)[of y] by simp
    then have gt: "\<And>z. z \<in> set ys \<Longrightarrow> f z \<noteq> k" using le by fastforce
    have "filter (\<lambda>y. f y = k) ys = []" using gt by (simp add: filter_empty_conv)
    moreover have "filter (\<lambda>y. f y \<noteq> k) ys = ys" using gt by (simp add: filter_id_conv)
    ultimately show ?thesis using False by simp
  qed
qed

lemma squareStubs_lower:
  assumes "s \<in> set (squareStubs maxM maxN)"
  shows "sqrt 5 \<le> stubIndex s"
proof -
  from assms obtain m n where mn: "1 \<le> m" "1 \<le> n" "m \<noteq> n"
    and s: "s = (m, n, sqrt (real_of_int (m * m + n * n)))"
    by (auto simp: squareStubs_def split: if_splits)
  have sq1: "1 \<le> a * a" if "1 \<le> a" for a :: int using that mult_mono[of 1 a 1 a] by simp
  have sq4: "4 \<le> a * a" if "2 \<le> a" for a :: int using that mult_mono[of 2 a 2 a] by simp
  have "2 \<le> m \<or> 2 \<le> n" using mn by linarith
  then have "5 \<le> m * m + n * n"
    using sq1[OF mn(1)] sq1[OF mn(2)] sq4[of m] sq4[of n] by linarith
  then have "(5::real) \<le> real_of_int (m * m + n * n)" by linarith
  then show ?thesis by (simp add: s stubIndex_def)
qed

lemma sqrt_5_neq_5: "sqrt 5 \<noteq> 5"
  using real_sqrt_eq_iff[of 5 25] by simp

lemma squareStubs_7_7_minimal:
  "filter (\<lambda>s. stubIndex s = sqrt 5) (squareStubs 7 7) = [(1, 2, sqrt 5), (2, 1, sqrt 5)]"
  by (simp add: squareStubs_def stubIndex_def upto_rec1 sqrt_5_neq_5)

lemma sortByModeIndex_7_7_prefix:
  "\<exists>rest. sortByModeIndex (squareStubs 7 7) = (1, 2, sqrt 5) # (2, 1, sqrt 5) # rest"
proof -
  let ?ys = "sortByModeIndex (squareStubs 7 7)"
  have "?ys = filter (\<lambda>s. stubIndex s = sqrt 5) ?ys @ filter (\<lambda>s. stubIndex s \<noteq> sqrt 5) ?ys"
    by (rule sorted_min_prefix[OF sorted_sortByModeIndex])
       (simp add: set_sortByModeIndex squareStubs_lower)
  then have "?ys = [(1, 2, sqrt 5), (2, 1, sqrt 5)] @ filter (\<lambda>s. stubIndex s \<noteq> sqrt 5) ?ys"
    by (simp only: stable_sortByModeIndex squareStubs_7_7_minimal)
  then show ?thesis by auto
qed

lemma buildSquareModes_nth:
  "i < length (buildSquareModes maxM maxN) \<Longrightarrow>
   buildSquareModes maxM maxN ! i =
     (case sortByModeIndex (squareStubs maxM maxN) ! i of
        (m, n, k) \<Rightarrow> SquareMode m n k (logUniformFreq (length (buildSquareModes maxM maxN)) i)
                     (logUniformFreq (length (buildSquareModes maxM maxN)) i))"
  by (simp add: buildSquareModes_def Let_def)

lemma logUniformFreq_42_0: "logUniformFreq 42 0 = 20"
  by (simp add: logUniformFreq_value)

lemma ln_span: "ln 20000 - ln 20 = ln (1000::real)"
proof -
  have "ln (20000 / 20 :: real) = ln 20000 - ln 20" by (rule ln_divide_pos) simp_all
  then show ?thesis by simp
qed

lemma logUniformFreq_42_1: "logUniformFreq 42 1 = 20 * 1000 powr (1 / 41)"
proof -
  have "exp (ln 20 + 1 / 41 * ln 1000) = exp (ln 20) * exp (1 / 41 * ln (1000::real))"
    by (rule exp_add)
  also have "\<dots> = 20 * 1000 powr (1 / 41)" by (simp add: powr_def)
  finally show ?thesis by (simp add: logUniformFreq_value ln_span)
qed

lemma buildSquareModes_7_7_first:
  "buildSquareModes 7 7 ! 0 = SquareMode 1 2 (sqrt 5) 20 20"
  "buildSquareModes 7 7 ! 1 = SquareMode 2 1 (sqrt 5) (20 * 1000 powr (1 / 41)) (20 * 1000 powr (1 / 41))"
proof -
  from sortByModeIndex_7_7_prefix obtain rest where
    ys: "sortByModeIndex (squareStubs 7 7) = (1, 2, sqrt 5) # (2, 1, sqrt 5) # rest" by blast
  show "buildSquareModes 7 7 ! 0 = SquareMode 1 2 (sqrt 5) 20 20"
    by (simp add: buildSquareModes_nth length_buildSquareModes_7_7 ys logUniformFreq_42_0)
  show "buildSquareModes 7 7 ! 1 = SquareMode 2 1 (sqrt 5) (20 * 1000 powr (1 / 41)) (20 * 1000 powr (1 / 41))"
    using logUniformFreq_42_1
    by (simp add: buildSquareModes_nth length_buildSquareModes_7_7 ys)
qed

lemma sweep_freq_range:
  assumes "0 \<le> q" "q \<le> 41"
  shows "20 \<le> 20 * 1000 powr (q / 41)" "20 * 1000 powr (q / 41) \<le> (20000::real)"
proof -
  have "(1000::real) powr 0 \<le> 1000 powr (q / 41)" by (rule powr_mono) (use assms in simp_all)
  then show "20 \<le> 20 * 1000 powr (q / 41)" by simp
  have "(1000::real) powr (q / 41) \<le> 1000 powr 1" by (rule powr_mono) (use assms in simp_all)
  then show "20 * 1000 powr (q / 41) \<le> (20000::real)" by simp
qed

lemma blendPosition_sweep:
  assumes "0 \<le> q" "q \<le> 41"
  shows "blendPosition (20 * 1000 powr (q / 41)) 1 42 = q"
proof -
  let ?f = "20 * 1000 powr (q / 41) :: real"
  note r = sweep_freq_range[OF assms]
  have clamp: "max F_MIN (min F_MAX (?f * 1 * 1)) = ?f"
    using r by (simp add: F_MIN_def F_MAX_def max_def min_def)
  have "ln ?f = ln 20 + ln (1000 powr (q / 41))" by (rule ln_mult_pos) simp_all
  also have "\<dots> = ln 20 + q / 41 * ln 1000" by (simp add: ln_powr)
  finally have l: "ln ?f = ln 20 + q / 41 * ln 1000" .
  have pos: "0 < ln (1000::real)" by simp
  have t: "(ln ?f - LOG_F_MIN) / (LOG_F_MAX - LOG_F_MIN) = q / 41"
    using pos by (simp add: l LOG_F_MIN_def LOG_F_MAX_def F_MIN_def F_MAX_def ln_span)
  have tc: "max 0 (min 1 (q / 41)) = q / 41" using assms by (simp add: max_def min_def)
  show ?thesis
    unfolding blendPosition_def Let_def clamp t tc by simp
qed

section \<open>Mode entries and the blend computation\<close>

lemma setEigenFreq_sel:
  "eigenFreq (setEigenFreq v e) = v" "baseFreq (setEigenFreq v e) = baseFreq e"
  "stubOf (setEigenFreq v e) = stubOf e" "modeIndex (setEigenFreq v e) = modeIndex e"
  "mode_m (setEigenFreq v e) = mode_m e"
  by (cases e; simp)+

lemma setEigenFreq_same_shape:
  "(\<exists>m n k b e'. setEigenFreq v e = SquareMode m n k b e') = (\<exists>m n k b e'. e = SquareMode m n k b e')"
  by (cases e) simp_all

lemma log_span_pos: "0 < LOG_F_MAX - LOG_F_MIN"
  by (simp add: LOG_F_MAX_def LOG_F_MIN_def F_MAX_def F_MIN_def)

lemma clamp_pos: "0 < max F_MIN (min F_MAX x)"
  by (simp add: F_MIN_def max_def)

text \<open>
  C3: for a fixed plate size and a catalog of \<open>N \<ge> 1\<close> modes, the interpolation index
  \<open>p = tClamped (N - 1)\<close> that \<open>computeBlendInfo\<close> computes is a non-decreasing function
  of the driving frequency.
\<close>

theorem blendPosition_mono:
  assumes "f1 \<le> f2" and "1 \<le> N"
  shows "blendPosition (max F_MIN (min F_MAX f1)) (if L = 0 then 1 else L) N
       \<le> blendPosition (max F_MIN (min F_MAX f2)) (if L = 0 then 1 else L) N"
proof -
  define S where "S = (if L = 0 then 1 else L)"
  define d1 where "d1 = max F_MIN (min F_MAX f1)"
  define d2 where "d2 = max F_MIN (min F_MAX f2)"
  have d: "d1 \<le> d2" using assms(1) unfolding d1_def d2_def by (simp add: max_def min_def)
  have "d1 * S * S \<le> d2 * S * S"
  proof -
    have "d1 * (S * S) \<le> d2 * (S * S)" by (rule mult_right_mono[OF d]) simp
    then show ?thesis by (simp add: mult.assoc)
  qed
  then have c: "max F_MIN (min F_MAX (d1 * S * S)) \<le> max F_MIN (min F_MAX (d2 * S * S))"
    by (simp add: max_def min_def)
  have l: "ln (max F_MIN (min F_MAX (d1 * S * S))) \<le> ln (max F_MIN (min F_MAX (d2 * S * S)))"
    using c clamp_pos by (simp add: ln_le_cancel_iff)
  then have t: "(ln (max F_MIN (min F_MAX (d1 * S * S))) - LOG_F_MIN) / (LOG_F_MAX - LOG_F_MIN)
       \<le> (ln (max F_MIN (min F_MAX (d2 * S * S))) - LOG_F_MIN) / (LOG_F_MAX - LOG_F_MIN)"
    using log_span_pos by (simp add: divide_right_mono)
  then have tc: "max 0 (min 1 ((ln (max F_MIN (min F_MAX (d1 * S * S))) - LOG_F_MIN) / (LOG_F_MAX - LOG_F_MIN)))
       \<le> max 0 (min 1 ((ln (max F_MIN (min F_MAX (d2 * S * S))) - LOG_F_MIN) / (LOG_F_MAX - LOG_F_MIN)))"
    by (simp add: max_def min_def)
  have n: "0 \<le> real N - 1" using assms(2) by simp
  show ?thesis
    unfolding blendPosition_def Let_def S_def[symmetric] d1_def[symmetric] d2_def[symmetric]
    by (rule mult_right_mono[OF tc n])
qed

theorem blendPosition_mono_witness:
  "blendPosition (max F_MIN (min F_MAX 440)) (if (0.9::real) = 0 then 1 else 0.9) 42
       \<le> blendPosition (max F_MIN (min F_MAX 880)) (if (0.9::real) = 0 then 1 else 0.9) 42"
  using blendPosition_mono[of 440 880 42 "0.9"] by simp

text \<open>
  C8: when the catalog of the selected shape is empty, \<open>computeBlendInfo\<close> returns the
  descriptor with both modes absent and \<open>alpha = 0\<close> (echoing the parameters), and
  \<open>recomputeField\<close> leaves an empty nodal point list, for every frequency and plate size.
  Both functions are total, and on this path the source performs no operation that can
  throw.
\<close>

theorem empty_catalog_blend:
  assumes "(if Params.shape (params st) = Square then squareModes st else circleModes st) = []"
  shows "computeBlendInfo st =
           \<lparr>BlendInfo.shape = Params.shape (params st),
            BlendInfo.freqHz = Params.freqHz (params st),
            BlendInfo.plateSize = Params.plateSize (params st),
            mode0 = None, mode1 = None, alpha = 0\<rparr>
       \<and> nodalPoints (recomputeField st) = []"
  using assms by (simp add: computeBlendInfo_def recomputeField_def Let_def)

theorem empty_catalog_blend_witness:
  "computeBlendInfo ((initialRenderer 600 400)\<lparr>squareModes := []\<rparr>) =
           \<lparr>BlendInfo.shape = Square, BlendInfo.freqHz = 440, BlendInfo.plateSize = 0.9,
            mode0 = None, mode1 = None, alpha = 0\<rparr>
       \<and> nodalPoints (recomputeField ((initialRenderer 600 400)\<lparr>squareModes := []\<rparr>)) = []"
  using empty_catalog_blend[of "(initialRenderer 600 400)\<lparr>squareModes := []\<rparr>"]
  by (simp add: initialRenderer_def)


section \<open>Properties of the sampling passes\<close>

lemma foldl_nested_product:
  "foldl (\<lambda>acc j. foldl (\<lambda>acc i. f j i acc) acc is) a js
     = foldl (\<lambda>acc (j, i). f j i acc) a (List.product js is)"
proof (induction js arbitrary: a)
  case Nil
  then show ?case by simp
next
  case (Cons j js)
  have "foldl (\<lambda>acc (j, i). f j i acc) a (map (Pair j) is) = foldl (\<lambda>acc i. f j i acc) a is"
    by (induction "is" arbitrary: a) simp_all
  with Cons show ?case by simp
qed

lemma Max_insert_max:
  "finite S \<Longrightarrow> Max (insert (max a b) S) = Max (insert (a::real) (insert b S))"
  by (cases "S = {}") (simp_all add: max.assoc)

lemma sampleCell_fold:
  "0 \<le> mx \<Longrightarrow>
   foldl (\<lambda>acc (j, i). sampleCell sh m0 m1 a (- 1 + real i * step) (- 1 + real j * step) acc) (amps, mx) ps
     = (amps @ map (gridValue sh m0 m1 a step) ps, Max (set (mx # map (\<lambda>p. \<bar>gridValue sh m0 m1 a step p\<bar>) ps)))"
proof (induction ps arbitrary: amps mx)
  case Nil
  then show ?case by simp
next
  case (Cons p ps)
  obtain j i where p: "p = (j, i)" by (cases p)
  let ?u = "gridValue sh m0 m1 a step p"
  let ?F = "\<lambda>acc (j, i). sampleCell sh m0 m1 a (- 1 + real i * step) (- 1 + real j * step) acc"
  have step1: "?F (amps, mx) p = (amps @ [?u], max mx \<bar>?u\<bar>)"
    using Cons.prems by (auto simp: sampleCell_def gridValue_def p Let_def max_def)
  have nonneg: "0 \<le> max mx \<bar>?u\<bar>" by simp
  have "foldl ?F (amps, mx) (p # ps) = foldl ?F (amps @ [?u], max mx \<bar>?u\<bar>) ps"
    by (simp only: foldl_Cons step1)
  also have "\<dots> = ((amps @ [?u]) @ map (gridValue sh m0 m1 a step) ps,
        Max (set (max mx \<bar>?u\<bar> # map (\<lambda>p. \<bar>gridValue sh m0 m1 a step p\<bar>) ps)))"
    by (rule Cons.IH[OF nonneg])
  also have "\<dots> = (amps @ map (gridValue sh m0 m1 a step) (p # ps),
        Max (set (mx # map (\<lambda>p. \<bar>gridValue sh m0 m1 a step p\<bar>) (p # ps))))"
    by (simp add: Max_insert_max del: Max_insert)
  finally show ?case .
qed

lemma firstPass_closed:
  "firstPass sh m0 m1 a res step
     = (map (gridValue sh m0 m1 a step) (List.product [0..<res] [0..<res]),
        Max (set (0 # map (\<lambda>p. \<bar>gridValue sh m0 m1 a step p\<bar>) (List.product [0..<res] [0..<res]))))"
proof -
  have "firstPass sh m0 m1 a res step
      = foldl (\<lambda>acc (j, i). sampleCell sh m0 m1 a (- 1 + real i * step) (- 1 + real j * step) acc)
          ([], 0) (List.product [0..<res] [0..<res])"
    unfolding firstPass_def Let_def by (rule foldl_nested_product)
  also have "\<dots> = ([] @ map (gridValue sh m0 m1 a step) (List.product [0..<res] [0..<res]),
        Max (set (0 # map (\<lambda>p. \<bar>gridValue sh m0 m1 a step p\<bar>) (List.product [0..<res] [0..<res]))))"
    by (rule sampleCell_fold) simp
  finally show ?thesis by (simp only: append_Nil)
qed

lemma collectCell_fold:
  "amps = pre @ map u ps @ post \<Longrightarrow>
   foldl (\<lambda>acc (j, i). collectCell amps thr ox oy half (- 1 + real i * step) (- 1 + real j * step) acc) (pts, length pre) ps
     = (pts @ concat (map (nodalCell u thr ox oy half step) ps), length pre + length ps)"
proof (induction ps arbitrary: pre pts)
  case Nil
  then show ?case by simp
next
  case (Cons p ps)
  obtain j i where p: "p = (j, i)" by (cases p)
  have nth: "amps ! length pre = u p" using Cons.prems by (simp add: nth_append)
  have step1: "collectCell amps thr ox oy half (- 1 + real i * step) (- 1 + real j * step) (pts, length pre)
       = (pts @ nodalCell u thr ox oy half step p, length (pre @ [u p]))"
    by (simp add: collectCell_def nodalCell_def Let_def nth p)
  have "amps = (pre @ [u p]) @ map u ps @ post" using Cons.prems by simp
  from Cons.IH[OF this, of "pts @ nodalCell u thr ox oy half step p"] step1
  show ?case by (simp add: p)
qed

lemma secondPass_closed:
  "fst (secondPass (map u (List.product [0..<res] [0..<res])) thr ox oy half res step)
     = concat (map (nodalCell u thr ox oy half step) (List.product [0..<res] [0..<res]))"
proof -
  let ?grid = "List.product [0..<res] [0..<res]"
  let ?F = "\<lambda>acc (j, i). collectCell (map u ?grid) thr ox oy half (- 1 + real i * step) (- 1 + real j * step) acc"
  have "secondPass (map u ?grid) thr ox oy half res step = foldl ?F ([], 0) ?grid"
    unfolding secondPass_def Let_def by (rule foldl_nested_product)
  also have "\<dots> = foldl ?F ([], length ([]::real list)) ?grid"
    by (simp only: list.size)
  also have "\<dots> = ([] @ concat (map (nodalCell u thr ox oy half step) ?grid),
        length ([]::real list) + length ?grid)"
    by (rule collectCell_fold[where post = "[]"]) simp
  finally show ?thesis by simp
qed

lemma pointPairs_nodalCells:
  "pointPairs (concat (map (nodalCell u thr ox oy half step) ps))
     = map (\<lambda>p. (ox + (- 1 + real (snd p) * step) * half, oy - (- 1 + real (fst p) * step) * half))
         (filter (\<lambda>p. \<bar>u p\<bar> \<le> thr) ps)"
  by (induction ps) (simp_all add: nodalCell_def)

lemma sampleField_closed:
  "sampleField sh m0 m1 a res tau ox oy half =
     (let step = 2 / (real res - 1);
          grid = List.product [0..<res] [0..<res];
          u = gridValue sh m0 m1 a step;
          M = Max (set (0 # map (\<lambda>p. \<bar>u p\<bar>) grid));
          thr = tau * (if 0 < M then M else 1)
      in \<lparr>fieldAmplitudes = map u grid, fieldMaxAbs = M, fieldThreshold = thr,
          fieldPoints = concat (map (nodalCell u thr ox oy half step) grid)\<rparr>)"
  by (simp add: sampleField_def Let_def firstPass_closed secondPass_closed)

lemma sampleField_threshold_eq:
  "fieldThreshold (sampleField sh m0 m1 a res tau ox oy half)
     = tau * (if 0 < fieldMaxAbs (sampleField sh m0 m1 a res tau ox oy half)
              then fieldMaxAbs (sampleField sh m0 m1 a res tau ox oy half) else 1)"
  by (simp add: sampleField_closed Let_def)

lemma squareModeDisplacement_swap:
  "squareModeDisplacement x y n m = - squareModeDisplacement x y m n"
  by (simp add: squareModeDisplacement_def Let_def)

lemma squareModeDisplacement_bound: "\<bar>squareModeDisplacement x y m n\<bar> \<le> 2"
proof -
  have c: "\<bar>cos a * cos b\<bar> \<le> 1" for a b :: real
    by (simp add: abs_mult mult_le_one)
  have "\<bar>cos a * cos b - cos c' * cos d\<bar> \<le> 2" for a b c' d :: real
    using c[of a b] c[of c' d] by linarith
  then show ?thesis by (simp add: squareModeDisplacement_def Let_def)
qed

lemma gridValue_swap_bound:
  assumes "mode_m m1 = mode_n m0" "mode_n m1 = mode_m m0"
  shows "\<bar>gridValue Square m0 m1 (2/5) step p\<bar> \<le> 2/5"
proof -
  have "\<bar>(1 - 2/5) * v + 2/5 * (- v)\<bar> \<le> 2/5" if "\<bar>v\<bar> \<le> 2" for v :: real
    using that by (simp add: abs_if split: if_splits)
  from this[OF squareModeDisplacement_bound] show ?thesis
    using assms squareModeDisplacement_swap[of _ _ "mode_n m0" "mode_m m0"]
    by (simp add: gridValue_def blendedValue_def Let_def)
qed

lemma gridValue_corner:
  assumes "2 \<le> res" "mode_m m0 = 1" "mode_n m0 = 2" "mode_m m1 = 2" "mode_n m1 = 1"
  shows "gridValue Square m0 m1 (2/5) (2 / (real res - 1)) (0, res - 1) = 2/5"
proof -
  have r: "real (res - 1) = real res - 1" using assms(1) by (simp add: of_nat_diff)
  have nz: "real res - 1 \<noteq> 0" using assms(1) by simp
  have "d * (2 / d) = 2" if "d \<noteq> 0" for d :: real using that by simp
  from this[OF nz] have "(real res - 1) * (2 / (real res - 1)) = 2" .
  then have x: "- 1 + real (res - 1) * (2 / (real res - 1)) = 1"
    by (simp only: r)
  have "gridValue Square m0 m1 (2/5) (2 / (real res - 1)) (0, res - 1)
      = (if insidePlate Square 1 (- 1 + real 0 * (2 / (real res - 1)))
         then blendedValue Square m0 m1 (2/5) 1 (- 1 + real 0 * (2 / (real res - 1))) else 0)"
    by (simp only: gridValue_def Let_def fst_conv snd_conv x)
  also have "\<dots> = 2/5"
    using assms(2-)
    by (simp add: insidePlate_def blendedValue_def squareModeDisplacement_def Let_def)
  finally show ?thesis .
qed

lemma square_swap_maxAbs:
  assumes "2 \<le> res" "mode_m m0 = 1" "mode_n m0 = 2" "mode_m m1 = 2" "mode_n m1 = 1"
  shows "fieldMaxAbs (sampleField Square m0 m1 (2/5) res tau ox oy half) = 2/5"
proof -
  let ?u = "gridValue Square m0 m1 (2/5) (2 / (real res - 1))"
  let ?grid = "List.product [0..<res] [0..<res]"
  let ?S = "set (0 # map (\<lambda>p. \<bar>?u p\<bar>) ?grid)"
  have "Max ?S = 2/5"
  proof (rule Max_eqI)
    show "finite ?S" by simp
    show "y \<le> 2/5" if "y \<in> ?S" for y
      using that gridValue_swap_bound[of m1 m0] assms by auto
    have "(0, res - 1) \<in> set ?grid" using assms(1) by simp
    then have "\<bar>?u (0, res - 1)\<bar> \<in> ?S" by (metis (no_types, lifting) image_eqI list.set_intros(2) set_map)
    then show "2/5 \<in> ?S" by (simp only: gridValue_corner[OF assms]) simp
  qed
  then show ?thesis by (simp add: sampleField_closed Let_def)
qed

lemma blendPosition_range:
  assumes "1 \<le> N"
  shows "0 \<le> blendPosition d S N \<and> blendPosition d S N \<le> real N - 1"
proof -
  define tc where "tc = max 0 (min 1 ((ln (max F_MIN (min F_MAX (d * S * S))) - LOG_F_MIN) / (LOG_F_MAX - LOG_F_MIN)))"
  have tc: "0 \<le> tc" "tc \<le> 1" by (simp_all add: tc_def)
  have n: "0 \<le> real N - 1" using assms by simp
  have p: "blendPosition d S N = tc * (real N - 1)"
    by (simp add: blendPosition_def Let_def tc_def)
  have "tc * (real N - 1) \<le> 1 * (real N - 1)" by (rule mult_right_mono[OF tc(2) n])
  with tc(1) n show ?thesis by (simp add: p)
qed

lemma modeAt_in_range: "0 \<le> i \<Longrightarrow> i \<le> int (length modes) - 1 \<Longrightarrow> modeAt modes i = Some (modes ! nat i)"
  by (simp add: modeAt_def)

lemma computeBlendInfo_present:
  assumes "(if Params.shape (params st) = Square then squareModes st else circleModes st) = modes"
    and "modes \<noteq> []"
  shows "\<exists>i0 i1. i0 < length modes \<and> i1 < length modes
          \<and> BlendInfo.mode0 (computeBlendInfo st) = Some (modes ! i0)
          \<and> BlendInfo.mode1 (computeBlendInfo st) = Some (modes ! i1)"
proof -
  define p where "p = blendPosition (max F_MIN (min F_MAX (Params.freqHz (params st))))
      (if Params.plateSize (params st) = 0 then 1 else Params.plateSize (params st)) (length modes)"
  have N: "1 \<le> length modes" using assms(2) by (cases modes) simp_all
  from blendPosition_range[OF N] have r: "0 \<le> p" "p \<le> real (length modes) - 1"
    by (simp_all add: p_def)
  have f0: "0 \<le> \<lfloor>p\<rfloor>" using r(1) by simp
  have "p \<le> real_of_int (int (length modes) - 1)" using r(2) by simp
  then have f1: "\<lfloor>p\<rfloor> \<le> int (length modes) - 1" by (simp only: floor_le_iff)
  define i0 where "i0 = \<lfloor>p\<rfloor>"
  define i1 where "i1 = min (i0 + 1) (int (length modes) - 1)"
  have b0: "0 \<le> i0" "i0 \<le> int (length modes) - 1" using f0 f1 by (simp_all add: i0_def)
  have b1: "0 \<le> i1" "i1 \<le> int (length modes) - 1" unfolding i1_def using b0 N by linarith+
  have m0: "BlendInfo.mode0 (computeBlendInfo st) = modeAt modes i0"
    using assms by (simp add: computeBlendInfo_def Let_def p_def i0_def)
  have m1: "BlendInfo.mode1 (computeBlendInfo st) = modeAt modes i1"
    using assms by (simp add: computeBlendInfo_def Let_def p_def i0_def i1_def)
  have "nat i0 < length modes" "nat i1 < length modes" using b0 b1 by linarith+
  then show ?thesis
    using m0 m1 modeAt_in_range[OF b0] modeAt_in_range[OF b1] by auto
qed

lemma computeBlendInfo_shape: "BlendInfo.shape (computeBlendInfo st) = Params.shape (params st)"
  by (simp add: computeBlendInfo_def Let_def)

lemma gridValue_outside:
  "1 < hypot (- 1 + real i * step) (- 1 + real j * step) \<Longrightarrow> gridValue Circle m0 m1 a step (j, i) = 0"
  by (simp add: gridValue_def insidePlate_def Let_def)

lemma sampleField_threshold_nonneg:
  "0 \<le> tau \<Longrightarrow> 0 \<le> fieldThreshold (sampleField sh m0 m1 a res tau ox oy half)"
  by (simp add: sampleField_closed Let_def)

lemma sampleField_outside:
  assumes "0 \<le> tau" "i < res" "j < res"
    and "1 < hypot (- 1 + real i * (2 / (real res - 1))) (- 1 + real j * (2 / (real res - 1)))"
  shows "fieldAmplitudes (sampleField Circle m0 m1 a res tau ox oy half) ! (j * res + i) = 0"
    and "(ox + (- 1 + real i * (2 / (real res - 1))) * half,
          oy - (- 1 + real j * (2 / (real res - 1))) * half)
          \<in> set (pointPairs (fieldPoints (sampleField Circle m0 m1 a res tau ox oy half)))"
proof -
  let ?step = "2 / (real res - 1)"
  let ?grid = "List.product [0..<res] [0..<res]"
  let ?u = "gridValue Circle m0 m1 a ?step"
  have u0: "?u (j, i) = 0" by (rule gridValue_outside[OF assms(4)])
  have "j * res + i < res * res"
  proof -
    have "j * res + i < j * res + res" using assms(2) by simp
    also have "\<dots> = (j + 1) * res" by simp
    also have "\<dots> \<le> res * res" using assms(3) by (metis Suc_eq_plus1 Suc_leI mult.commute mult_le_mono2)
    finally show ?thesis .
  qed
  then have nth: "?grid ! (j * res + i) = (j, i)"
    using assms(2,3) by (simp add: product_nth)
  show "fieldAmplitudes (sampleField Circle m0 m1 a res tau ox oy half) ! (j * res + i) = 0"
    using \<open>j * res + i < res * res\<close> nth u0 by (simp add: sampleField_closed Let_def)
  have mem: "(j, i) \<in> set ?grid" using assms(2,3) by simp
  have thr: "0 \<le> fieldThreshold (sampleField Circle m0 m1 a res tau ox oy half)"
    by (rule sampleField_threshold_nonneg[OF assms(1)])
  define thr where "thr = fieldThreshold (sampleField Circle m0 m1 a res tau ox oy half)"
  have pts: "fieldPoints (sampleField Circle m0 m1 a res tau ox oy half)
       = concat (map (nodalCell ?u thr ox oy half ?step) ?grid)"
    by (simp add: sampleField_closed Let_def thr_def)
  have "(j, i) \<in> set (filter (\<lambda>p. \<bar>?u p\<bar> \<le> thr) ?grid)"
    using mem u0 thr by (simp add: thr_def)
  then have "(\<lambda>p. (ox + (- 1 + real (snd p) * ?step) * half, oy - (- 1 + real (fst p) * ?step) * half)) (j, i)
      \<in> set (map (\<lambda>p. (ox + (- 1 + real (snd p) * ?step) * half, oy - (- 1 + real (fst p) * ?step) * half))
          (filter (\<lambda>p. \<bar>?u p\<bar> \<le> thr) ?grid))"
    by (simp only: set_map) (rule imageI)
  then show "(ox + (- 1 + real i * ?step) * half, oy - (- 1 + real j * ?step) * half)
          \<in> set (pointPairs (fieldPoints (sampleField Circle m0 m1 a res tau ox oy half)))"
    by (simp only: pts pointPairs_nodalCells fst_conv snd_conv)
qed

lemma recomputeField_sampled:
  assumes "BlendInfo.mode0 (computeBlendInfo st) = Some a"
    and "BlendInfo.mode1 (computeBlendInfo st) = Some c"
    and "clientWidth st \<noteq> 0" and "clientHeight st \<noteq> 0"
  shows "cx (recomputeField st) = clientWidth st / 2"
    and "cy (recomputeField st) = clientHeight st / 2"
    and "halfPlatePix (recomputeField st)
          = 0.45 * min (clientWidth st) (clientHeight st) * BlendInfo.plateSize (computeBlendInfo st)"
    and "nodalPoints (recomputeField st)
          = fieldPoints (sampleField (BlendInfo.shape (computeBlendInfo st)) a c
              (BlendInfo.alpha (computeBlendInfo st)) (resolution st) (nodeThreshold st)
              (clientWidth st / 2) (clientHeight st / 2)
              (0.45 * min (clientWidth st) (clientHeight st) * BlendInfo.plateSize (computeBlendInfo st)))"
  using assms by (simp_all add: recomputeField_def Let_def)

text \<open>
  C10: on the circular plate, with a resolution of at least \<open>2\<close>, both blend modes given
  and a non-negative threshold fraction, every grid point outside the unit disc is among
  the nodal points of the sampling pass, whatever the modes, the blend weight, the
  frequency and the plate size: its stored amplitude is \<open>0\<close> and the threshold is
  non-negative. \<open>recomputeField\<close> runs that pass whenever the circular catalog is not
  empty and the canvas has a non-zero size, and then stores the point.
\<close>

theorem circle_outside_points_nodal:
  assumes "0 \<le> tau" and "2 \<le> res" and "i < res" and "j < res"
    and "xNorm = - 1 + real i * (2 / (real res - 1))"
    and "yNorm = - 1 + real j * (2 / (real res - 1))"
    and "1 < hypot xNorm yNorm"
  shows "fieldAmplitudes (sampleField Circle m0 m1 a res tau ox oy hp) ! (j * res + i) = 0
       \<and> 0 \<le> fieldThreshold (sampleField Circle m0 m1 a res tau ox oy hp)
       \<and> (ox + xNorm * hp, oy - yNorm * hp)
            \<in> set (pointPairs (fieldPoints (sampleField Circle m0 m1 a res tau ox oy hp)))
       \<and> (Params.shape (params st) = Circle \<and> circleModes st \<noteq> []
            \<and> clientWidth st \<noteq> 0 \<and> clientHeight st \<noteq> 0
            \<and> nodeThreshold st = tau \<and> resolution st = res \<longrightarrow>
           (cx (recomputeField st) + xNorm * halfPlatePix (recomputeField st),
            cy (recomputeField st) - yNorm * halfPlatePix (recomputeField st))
             \<in> set (pointPairs (nodalPoints (recomputeField st))))"
proof -
  have out: "1 < hypot (- 1 + real i * (2 / (real res - 1))) (- 1 + real j * (2 / (real res - 1)))"
    using assms(5,6,7) by simp
  have A: "fieldAmplitudes (sampleField Circle m0 m1 a res tau ox oy hp) ! (j * res + i) = 0"
    by (rule sampleField_outside(1)[OF assms(1,3,4) out])
  have B: "0 \<le> fieldThreshold (sampleField Circle m0 m1 a res tau ox oy hp)"
    by (rule sampleField_threshold_nonneg[OF assms(1)])
  have C: "(ox + xNorm * hp, oy - yNorm * hp)
            \<in> set (pointPairs (fieldPoints (sampleField Circle m0 m1 a res tau ox oy hp)))"
    unfolding assms(5,6) by (rule sampleField_outside(2)[OF assms(1,3,4) out])
  have D: "(cx (recomputeField st) + xNorm * halfPlatePix (recomputeField st),
            cy (recomputeField st) - yNorm * halfPlatePix (recomputeField st))
             \<in> set (pointPairs (nodalPoints (recomputeField st)))"
    if h: "Params.shape (params st) = Circle" "circleModes st \<noteq> []"
      "clientWidth st \<noteq> 0" "clientHeight st \<noteq> 0" "nodeThreshold st = tau" "resolution st = res"
  proof -
    from computeBlendInfo_present[of st "circleModes st"] h(1,2)
    obtain i0 i1 where pres: "BlendInfo.mode0 (computeBlendInfo st) = Some (circleModes st ! i0)"
        "BlendInfo.mode1 (computeBlendInfo st) = Some (circleModes st ! i1)"
      by auto
    have sh: "BlendInfo.shape (computeBlendInfo st) = Circle"
      by (simp add: computeBlendInfo_shape h(1))
    note rf = recomputeField_sampled[OF pres h(3,4)]
    show ?thesis
      unfolding rf sh h(5,6) assms(5,6)
      by (rule sampleField_outside(2)[OF assms(1,3,4) out])
  qed
  from A B C D show ?thesis by blast
qed

theorem circle_outside_points_nodal_witness:
  "(cx (recomputeField circleRenderer) + (- 1) * halfPlatePix (recomputeField circleRenderer),
    cy (recomputeField circleRenderer) - (- 1) * halfPlatePix (recomputeField circleRenderer))
     \<in> set (pointPairs (nodalPoints (recomputeField circleRenderer)))
   \<and> fieldAmplitudes (sampleField Circle (CircleMode 0 1 1 20 20) (CircleMode 1 1 (sqrt 2) 30 30)
        (1 / 4) 320 0.08 300 200 162) ! (0 * 320 + 0) = 0"
proof -
  have h1: "Params.shape (params circleRenderer) = Circle"
    by (simp add: circleRenderer_def)
  have "length (circleModes circleRenderer) = 56"
    by (simp add: circleRenderer_def initialRenderer_def length_buildCircleModes_7_7)
  then have h2: "circleModes circleRenderer \<noteq> []" by auto
  have h3: "clientWidth circleRenderer \<noteq> 0" "clientHeight circleRenderer \<noteq> 0"
    "nodeThreshold circleRenderer = 0.08" "resolution circleRenderer = 320"
    by (simp_all add: circleRenderer_def initialRenderer_def)
  have t: "(0::real) \<le> 0.08" and r: "(2::nat) \<le> 320" and z: "(0::nat) < 320" by simp_all
  have h4: "- 1 = - 1 + real 0 * (2 / (real 320 - 1))" by simp
  have h5: "1 < hypot (- 1) (- 1)" by (simp add: hypot_def)
  from circle_outside_points_nodal[OF t r z z h4 h4 h5,
      of "CircleMode 0 1 1 20 20" "CircleMode 1 1 (sqrt 2) 30 30" "1 / 4" 300 200 162 circleRenderer]
    h1 h2 h3
  show ?thesis by blast
qed

section \<open>A renderer the user interface can reach\<close>

lemma recomputeField_frame:
  "params (recomputeField st) = params st"
  "squareModes (recomputeField st) = squareModes st"
  "circleModes (recomputeField st) = circleModes st"
  "clientWidth (recomputeField st) = clientWidth st"
  "clientHeight (recomputeField st) = clientHeight st"
  "resolution (recomputeField st) = resolution st"
  "nodeThreshold (recomputeField st) = nodeThreshold st"
  "blendInfo (recomputeField st) = Some (computeBlendInfo st)"
  by (simp_all add: recomputeField_def Let_def split: option.splits)

lemma updateModeFrequencies_frame_fields:
  "params (updateModeFrequencies st) = params st"
  "clientWidth (updateModeFrequencies st) = clientWidth st"
  "clientHeight (updateModeFrequencies st) = clientHeight st"
  "resolution (updateModeFrequencies st) = resolution st"
  "nodeThreshold (updateModeFrequencies st) = nodeThreshold st"
  by (simp_all add: updateModeFrequencies_def Let_def)

lemma computeBlendInfo_cong:
  "params st = params st' \<Longrightarrow> squareModes st = squareModes st' \<Longrightarrow>
   circleModes st = circleModes st' \<Longrightarrow> computeBlendInfo st = computeBlendInfo st'"
  by (simp add: computeBlendInfo_def Let_def)

lemma setEigenFreq_twice: "setEigenFreq v (setEigenFreq w e) = setEigenFreq v e"
  by (cases e) simp_all

lemma setEigenFreq_id: "eigenFreq e = v \<Longrightarrow> setEigenFreq v e = e"
  by (cases e) auto

lemma built_square_eigen: "e \<in> set (buildSquareModes maxM maxN) \<Longrightarrow> eigenFreq e = baseFreq e"
  by (auto simp: buildSquareModes_def Let_def split: prod.splits)

lemma built_circle_eigen: "e \<in> set (buildCircleModes maxM maxN) \<Longrightarrow> eigenFreq e = baseFreq e"
  by (auto simp: buildCircleModes_def Let_def split: prod.splits)

lemma rescale_twice_to_one:
  assumes "\<And>e. e \<in> set cat \<Longrightarrow> eigenFreq e = baseFreq e"
  shows "map ((\<lambda>m. setEigenFreq (baseFreq m) m) \<circ> (\<lambda>m. setEigenFreq (g m) m)) cat = cat"
proof -
  have "setEigenFreq (baseFreq (setEigenFreq (g e) e)) (setEigenFreq (g e) e) = e"
    if "e \<in> set cat" for e
    using assms[OF that] by (simp add: setEigenFreq_sel setEigenFreq_twice setEigenFreq_id)
  then show ?thesis by (simp add: map_idI)
qed

lemma sweepRenderer_fields:
  "params (sweepRenderer q)
     = \<lparr>Params.shape = Square, Params.plateSize = 1, Params.freqHz = 20 * 1000 powr (q / 41)\<rparr>"
  "squareModes (sweepRenderer q) = buildSquareModes 7 7"
  "circleModes (sweepRenderer q) = buildCircleModes 7 7"
  "clientWidth (sweepRenderer q) = 600" "clientHeight (sweepRenderer q) = 400"
  "resolution (sweepRenderer q) = 320" "nodeThreshold (sweepRenderer q) = 0.08"
  by (simp_all add: sweepRenderer_def updateParams_def sweepParams_def newRenderer_def Let_def
      recomputeField_frame updateModeFrequencies_frame_fields assignParams_def initialRenderer_def
      updateModeFrequencies_def rescale_twice_to_one built_square_eigen built_circle_eigen)

lemma computeBlendInfo_recomputeField: "computeBlendInfo (recomputeField st) = computeBlendInfo st"
  by (rule computeBlendInfo_cong) (simp_all add: recomputeField_frame)

lemma updateParams_blendInfo:
  "blendInfo (updateParams st np) = Some (computeBlendInfo (updateParams st np))"
  by (simp add: updateParams_def Let_def recomputeField_frame computeBlendInfo_recomputeField)

lemma recomputeField_points:
  assumes "BlendInfo.mode0 (computeBlendInfo (recomputeField st)) = Some a"
    and "BlendInfo.mode1 (computeBlendInfo (recomputeField st)) = Some c"
    and "clientWidth (recomputeField st) \<noteq> 0" and "clientHeight (recomputeField st) \<noteq> 0"
  shows "nodalPoints (recomputeField st)
          = fieldPoints (sampleField (BlendInfo.shape (computeBlendInfo (recomputeField st))) a c
              (BlendInfo.alpha (computeBlendInfo (recomputeField st)))
              (resolution (recomputeField st)) (nodeThreshold (recomputeField st))
              (clientWidth (recomputeField st) / 2) (clientHeight (recomputeField st) / 2)
              (0.45 * min (clientWidth (recomputeField st)) (clientHeight (recomputeField st))
                 * BlendInfo.plateSize (computeBlendInfo (recomputeField st))))"
  using assms recomputeField_sampled(4)[of st a c]
  by (simp add: recomputeField_frame computeBlendInfo_recomputeField)

lemma updateParams_points:
  assumes "BlendInfo.mode0 (computeBlendInfo (updateParams st np)) = Some a"
    and "BlendInfo.mode1 (computeBlendInfo (updateParams st np)) = Some c"
    and "clientWidth (updateParams st np) \<noteq> 0" and "clientHeight (updateParams st np) \<noteq> 0"
  shows "nodalPoints (updateParams st np)
          = fieldPoints (sampleField (BlendInfo.shape (computeBlendInfo (updateParams st np))) a c
              (BlendInfo.alpha (computeBlendInfo (updateParams st np)))
              (resolution (updateParams st np)) (nodeThreshold (updateParams st np))
              (clientWidth (updateParams st np) / 2) (clientHeight (updateParams st np) / 2)
              (0.45 * min (clientWidth (updateParams st np)) (clientHeight (updateParams st np))
                 * BlendInfo.plateSize (computeBlendInfo (updateParams st np))))"
proof -
  obtain X where X: "updateParams st np = recomputeField X"
    by (simp add: updateParams_def Let_def)
  show ?thesis using assms unfolding X by (rule recomputeField_points)
qed

lemma computeBlendInfo_sweep:
  assumes "0 \<le> q" "q < 1"
  shows "computeBlendInfo (sweepRenderer q) =
     \<lparr>BlendInfo.shape = Square, BlendInfo.freqHz = 20 * 1000 powr (q / 41),
      BlendInfo.plateSize = 1,
      mode0 = Some (SquareMode 1 2 (sqrt 5) 20 20),
      mode1 = Some (SquareMode 2 1 (sqrt 5) (20 * 1000 powr (1 / 41)) (20 * 1000 powr (1 / 41))),
      alpha = q\<rparr>"
proof -
  have q41: "q \<le> 41" using assms by simp
  note r = sweep_freq_range[OF assms(1) q41]
  have d: "max F_MIN (min F_MAX (20 * 1000 powr (q / 41))) = 20 * 1000 powr (q / 41)"
    using r by (simp add: F_MIN_def F_MAX_def max_def min_def)
  have p: "blendPosition (20 * 1000 powr (q / 41)) 1 42 = q"
    by (rule blendPosition_sweep[OF assms(1) q41])
  have fl: "\<lfloor>q\<rfloor> = 0" using assms by (simp add: floor_eq_iff)
  have m0: "modeAt (buildSquareModes 7 7) 0 = Some (SquareMode 1 2 (sqrt 5) 20 20)"
    by (simp add: modeAt_def length_buildSquareModes_7_7 buildSquareModes_7_7_first)
  have m1: "modeAt (buildSquareModes 7 7) 1
      = Some (SquareMode 2 1 (sqrt 5) (20 * 1000 powr (1 / 41)) (20 * 1000 powr (1 / 41)))"
    using buildSquareModes_7_7_first(2)
    by (simp add: modeAt_def length_buildSquareModes_7_7)
  have ne: "buildSquareModes 7 7 \<noteq> []"
    using length_buildSquareModes_7_7 by auto
  show ?thesis
    by (simp add: computeBlendInfo_def sweepRenderer_fields Let_def
        length_buildSquareModes_7_7 d p fl m0 m1 ne)
qed


section \<open>The plate-size rescaling\<close>

lemma rescale_twice:
  "map (\<lambda>m. setEigenFreq (baseFreq m * s) m) (map (\<lambda>m. setEigenFreq (baseFreq m * r) m) cat)
     = map (\<lambda>m. setEigenFreq (baseFreq m * s) m) cat"
  by (simp add: setEigenFreq_sel setEigenFreq_twice)

lemma catalogsScaled_cong:
  "params st' = params st \<Longrightarrow> squareModes st' = squareModes st \<Longrightarrow>
   circleModes st' = circleModes st \<Longrightarrow> catalogsScaled st' = catalogsScaled st"
  by (simp add: catalogsScaled_def)

lemma catalogsScaled_recomputeField: "catalogsScaled (recomputeField st) = catalogsScaled st"
  by (rule catalogsScaled_cong) (simp_all add: recomputeField_frame)

lemma catalogsScaled_update_any:
  assumes "squareModes st = map (\<lambda>m. setEigenFreq (baseFreq m * r) m) (buildSquareModes 7 7)"
    and "circleModes st = map (\<lambda>m. setEigenFreq (baseFreq m * r) m) (buildCircleModes 7 7)"
  shows "catalogsScaled (updateModeFrequencies st)"
  using assms
  by (simp add: catalogsScaled_def updateModeFrequencies_def Let_def rescale_twice
      setEigenFreq_sel setEigenFreq_twice)

lemma catalogsScaled_initial: "catalogsScaled (newRenderer w h)"
proof -
  have "squareModes (initialRenderer w h)
      = map (\<lambda>m. setEigenFreq (baseFreq m * 1) m) (buildSquareModes 7 7)"
    by (simp add: initialRenderer_def map_idI setEigenFreq_id built_square_eigen)
  moreover have "circleModes (initialRenderer w h)
      = map (\<lambda>m. setEigenFreq (baseFreq m * 1) m) (buildCircleModes 7 7)"
    by (simp add: initialRenderer_def map_idI setEigenFreq_id built_circle_eigen)
  ultimately have "catalogsScaled (updateModeFrequencies (initialRenderer w h))"
    by (rule catalogsScaled_update_any)
  then show ?thesis by (simp add: newRenderer_def catalogsScaled_recomputeField)
qed

lemma catalogsScaled_updateParams:
  assumes "catalogsScaled st"
  shows "catalogsScaled (updateParams st np)"
proof -
  let ?st1 = "st\<lparr>params := assignParams (params st) np\<rparr>"
  define r where "r = 1 / ((if Params.plateSize (params st) = 0 then 1 else Params.plateSize (params st))
      * (if Params.plateSize (params st) = 0 then 1 else Params.plateSize (params st)))"
  have sq: "squareModes ?st1 = map (\<lambda>m. setEigenFreq (baseFreq m * r) m) (buildSquareModes 7 7)"
    and ci: "circleModes ?st1 = map (\<lambda>m. setEigenFreq (baseFreq m * r) m) (buildCircleModes 7 7)"
    using assms by (simp_all add: catalogsScaled_def Let_def r_def)
  show ?thesis
  proof (cases "newPlateSize np")
    case None
    then have "Params.plateSize (params ?st1) = Params.plateSize (params st)"
      by (simp add: assignParams_def)
    then have "catalogsScaled ?st1" using assms by (simp add: catalogsScaled_def Let_def)
    then show ?thesis by (simp add: updateParams_def Let_def None catalogsScaled_recomputeField)
  next
    case (Some l)
    show ?thesis
    proof (cases "l = Params.plateSize (params st)")
      case True
      then have "Params.plateSize (params ?st1) = Params.plateSize (params st)"
        by (simp add: assignParams_def Some)
      then have "catalogsScaled ?st1" using assms by (simp add: catalogsScaled_def Let_def)
      then show ?thesis
        by (simp add: updateParams_def Let_def Some True catalogsScaled_recomputeField)
    next
      case False
      have "catalogsScaled (updateModeFrequencies ?st1)"
        by (rule catalogsScaled_update_any[OF sq ci])
      then show ?thesis
        by (simp add: updateParams_def Let_def Some False catalogsScaled_recomputeField)
    qed
  qed
qed

lemma catalogsScaled_reachable: "catalogsScaled (foldl updateParams (newRenderer w h) ups)"
proof (induction ups rule: rev_induct)
  case Nil
  then show ?case by (simp add: catalogsScaled_initial)
next
  case (snoc np ups)
  then show ?case by (simp add: catalogsScaled_updateParams)
qed

lemma catalogsScaled_fields:
  assumes "catalogsScaled st" and "0 < Params.plateSize (params st)"
  shows "map eigenFreq (squareModes st)
           = map (\<lambda>e. baseFreq e / (Params.plateSize (params st))\<^sup>2) (buildSquareModes 7 7)"
    and "map eigenFreq (circleModes st)
           = map (\<lambda>e. baseFreq e / (Params.plateSize (params st))\<^sup>2) (buildCircleModes 7 7)"
    and "map baseFreq (squareModes st) = map baseFreq (buildSquareModes 7 7)"
    and "map baseFreq (circleModes st) = map baseFreq (buildCircleModes 7 7)"
    and "map stubOf (squareModes st) = map stubOf (buildSquareModes 7 7)"
    and "map stubOf (circleModes st) = map stubOf (buildCircleModes 7 7)"
  using assms
  by (simp_all add: catalogsScaled_def Let_def setEigenFreq_sel o_def power2_eq_square)

text \<open>
  C9: when the plate size \<open>L\<close> is strictly positive, \<open>updateModeFrequencies\<close> sets the
  eigenfrequency of every entry of both catalogs to \<open>baseFreq / L\<^sup>2\<close> and changes nothing
  else: the base frequencies, the integer indices and \<open>modeIndex\<close> of every entry are
  as before, and so is every other field of the renderer. Hence in every renderer that
  the constructor and any sequence of \<open>updateParams\<close> calls produce, the base
  frequencies, indices and \<open>modeIndex\<close> values are those of the initial build, and the
  eigenfrequencies are the built base frequencies divided by \<open>L\<^sup>2\<close>.
\<close>

theorem updateModeFrequencies_frame:
  assumes "0 < Params.plateSize (params st)"
  shows "map eigenFreq (squareModes (updateModeFrequencies st))
           = map (\<lambda>e. baseFreq e / (Params.plateSize (params st))\<^sup>2) (squareModes st)
       \<and> map eigenFreq (circleModes (updateModeFrequencies st))
           = map (\<lambda>e. baseFreq e / (Params.plateSize (params st))\<^sup>2) (circleModes st)
       \<and> map baseFreq (squareModes (updateModeFrequencies st)) = map baseFreq (squareModes st)
       \<and> map baseFreq (circleModes (updateModeFrequencies st)) = map baseFreq (circleModes st)
       \<and> map stubOf (squareModes (updateModeFrequencies st)) = map stubOf (squareModes st)
       \<and> map stubOf (circleModes (updateModeFrequencies st)) = map stubOf (circleModes st)
       \<and> (updateModeFrequencies st)\<lparr>squareModes := squareModes st, circleModes := circleModes st\<rparr> = st
       \<and> (st = foldl updateParams (newRenderer w h) ups \<longrightarrow>
            map eigenFreq (squareModes st)
              = map (\<lambda>e. baseFreq e / (Params.plateSize (params st))\<^sup>2) (buildSquareModes 7 7)
            \<and> map eigenFreq (circleModes st)
              = map (\<lambda>e. baseFreq e / (Params.plateSize (params st))\<^sup>2) (buildCircleModes 7 7)
            \<and> map baseFreq (squareModes st) = map baseFreq (buildSquareModes 7 7)
            \<and> map baseFreq (circleModes st) = map baseFreq (buildCircleModes 7 7)
            \<and> map stubOf (squareModes st) = map stubOf (buildSquareModes 7 7)
            \<and> map stubOf (circleModes st) = map stubOf (buildCircleModes 7 7))"
proof -
  have one: "map eigenFreq (squareModes (updateModeFrequencies st))
           = map (\<lambda>e. baseFreq e / (Params.plateSize (params st))\<^sup>2) (squareModes st)
       \<and> map eigenFreq (circleModes (updateModeFrequencies st))
           = map (\<lambda>e. baseFreq e / (Params.plateSize (params st))\<^sup>2) (circleModes st)
       \<and> map baseFreq (squareModes (updateModeFrequencies st)) = map baseFreq (squareModes st)
       \<and> map baseFreq (circleModes (updateModeFrequencies st)) = map baseFreq (circleModes st)
       \<and> map stubOf (squareModes (updateModeFrequencies st)) = map stubOf (squareModes st)
       \<and> map stubOf (circleModes (updateModeFrequencies st)) = map stubOf (circleModes st)
       \<and> (updateModeFrequencies st)\<lparr>squareModes := squareModes st, circleModes := circleModes st\<rparr> = st"
    using assms
    by (simp add: updateModeFrequencies_def Let_def setEigenFreq_sel power2_eq_square o_def)
  have life: "map eigenFreq (squareModes st)
              = map (\<lambda>e. baseFreq e / (Params.plateSize (params st))\<^sup>2) (buildSquareModes 7 7)
            \<and> map eigenFreq (circleModes st)
              = map (\<lambda>e. baseFreq e / (Params.plateSize (params st))\<^sup>2) (buildCircleModes 7 7)
            \<and> map baseFreq (squareModes st) = map baseFreq (buildSquareModes 7 7)
            \<and> map baseFreq (circleModes st) = map baseFreq (buildCircleModes 7 7)
            \<and> map stubOf (squareModes st) = map stubOf (buildSquareModes 7 7)
            \<and> map stubOf (circleModes st) = map stubOf (buildCircleModes 7 7)"
    if "st = foldl updateParams (newRenderer w h) ups"
  proof -
    have "catalogsScaled st" unfolding that by (rule catalogsScaled_reachable)
    from catalogsScaled_fields[OF this assms] show ?thesis by blast
  qed
  from one life show ?thesis by blast
qed

theorem updateModeFrequencies_frame_witness:
  "map eigenFreq (squareModes (updateModeFrequencies (initialRenderer 600 400)))
     = map (\<lambda>e. baseFreq e / (0.9)\<^sup>2) (buildSquareModes 7 7)
   \<and> map eigenFreq (circleModes (updateModeFrequencies (initialRenderer 600 400)))
     = map (\<lambda>e. baseFreq e / (0.9)\<^sup>2) (buildCircleModes 7 7)
   \<and> map baseFreq (squareModes (updateModeFrequencies (initialRenderer 600 400)))
     = map baseFreq (buildSquareModes 7 7)
   \<and> map stubOf (squareModes (updateModeFrequencies (initialRenderer 600 400)))
     = map stubOf (buildSquareModes 7 7)
   \<and> map eigenFreq (squareModes (sweepRenderer (1 / 2)))
     = map (\<lambda>e. baseFreq e / 1\<^sup>2) (buildSquareModes 7 7)
   \<and> map stubOf (circleModes (sweepRenderer (1 / 2))) = map stubOf (buildCircleModes 7 7)"
proof -
  have r: "sweepRenderer (1 / 2) = foldl updateParams (newRenderer 600 400) [sweepParams (1 / 2)]"
    by (simp add: sweepRenderer_def)
  have p: "Params.plateSize (params (sweepRenderer (1 / 2))) = 1"
    by (simp add: sweepRenderer_fields)
  have a: "0 < Params.plateSize (params (initialRenderer 600 400))"
    "Params.plateSize (params (initialRenderer 600 400)) = 0.9"
    "squareModes (initialRenderer 600 400) = buildSquareModes 7 7"
    "circleModes (initialRenderer 600 400) = buildCircleModes 7 7"
    by (simp_all add: initialRenderer_def)
  have b: "0 < Params.plateSize (params (sweepRenderer (1 / 2)))" by (simp add: p)
  from updateModeFrequencies_frame[OF a(1), of 0 0 "[]"]
    updateModeFrequencies_frame[OF b, of 600 400 "[sweepParams (1 / 2)]"] r
  show ?thesis unfolding a(2-) p by blast
qed

section \<open>The nodal threshold\<close>

text \<open>
  C1, as the code has it: in every sampling pass the threshold is the threshold fraction
  times \<open>maxAbs\<close> when \<open>maxAbs > 0\<close>, and the fraction itself when \<open>maxAbs = 0\<close>; \<open>maxAbs\<close>
  is the maximum of the absolute values of the amplitudes stored for the grid (and \<open>0\<close>
  for an empty grid), each amplitude being the blended displacement of its grid point
  inside the plate and \<open>0\<close> outside.
\<close>

theorem sampleField_threshold:
  assumes "res \<noteq> 1"
  shows "fieldThreshold (sampleField sh m0 m1 a res tau ox oy half)
           = tau * (if 0 < fieldMaxAbs (sampleField sh m0 m1 a res tau ox oy half)
                    then fieldMaxAbs (sampleField sh m0 m1 a res tau ox oy half) else 1)
       \<and> fieldMaxAbs (sampleField sh m0 m1 a res tau ox oy half)
           = Max (set (0 # map abs (fieldAmplitudes (sampleField sh m0 m1 a res tau ox oy half))))
       \<and> fieldAmplitudes (sampleField sh m0 m1 a res tau ox oy half)
           = map (gridValue sh m0 m1 a (2 / (real res - 1))) (List.product [0..<res] [0..<res])"
proof -
  let ?sf = "sampleField sh m0 m1 a res tau ox oy half"
  let ?u = "gridValue sh m0 m1 a (2 / (real res - 1))"
  let ?grid = "List.product [0..<res] [0..<res]"
  have amps: "fieldAmplitudes ?sf = map ?u ?grid"
    by (simp add: sampleField_closed Let_def)
  have "fieldMaxAbs ?sf = Max (set (0 # map (\<lambda>p. \<bar>?u p\<bar>) ?grid))"
    by (simp add: sampleField_closed Let_def)
  also have "map (\<lambda>p. \<bar>?u p\<bar>) ?grid = map abs (fieldAmplitudes ?sf)"
    unfolding amps by (simp add: o_def)
  finally have mx: "fieldMaxAbs ?sf = Max (set (0 # map abs (fieldAmplitudes ?sf)))" .
  have thr: "fieldThreshold ?sf = tau * (if 0 < fieldMaxAbs ?sf then fieldMaxAbs ?sf else 1)"
    by (rule sampleField_threshold_eq)
  from thr mx amps show ?thesis by blast
qed

theorem sampleField_threshold_witness:
  "fieldThreshold lowField = 0.08 * (if 0 < fieldMaxAbs lowField then fieldMaxAbs lowField else 1)
   \<and> fieldMaxAbs lowField = Max (set (0 # map abs (fieldAmplitudes lowField)))
   \<and> fieldAmplitudes lowField
       = map (gridValue Square (SquareMode 1 2 (sqrt 5) 20 20)
                (SquareMode 2 1 (sqrt 5) (20 * 1000 powr (1 / 41)) (20 * 1000 powr (1 / 41)))
                (2 / 5) (2 / (real 320 - 1))) (List.product [0..<320] [0..<320])"
  unfolding lowField_def by (rule sampleField_threshold) simp

text \<open>
  The claim as stated fails in the renderer \<open>sweepRenderer (2/5)\<close>: its blend has
  \<open>alpha = 2/5\<close> between the square modes \<open>(1, 2)\<close> and \<open>(2, 1)\<close>, the pass that produced
  its nodal points is \<open>lowField\<close>, the maximum of that pass is \<open>2/5\<close>, strictly between
  \<open>0\<close> and \<open>1\<close>, and the threshold is \<open>0.08 \<sqdot> 2/5\<close>, not \<open>0.08 \<sqdot> max (2/5) 1\<close>.
\<close>

theorem sampleField_threshold_counterexample:
  "blendInfo (sweepRenderer (2 / 5))
     = Some \<lparr>BlendInfo.shape = Square, BlendInfo.freqHz = 20 * 1000 powr ((2 / 5) / 41),
        BlendInfo.plateSize = 1,
        mode0 = Some (SquareMode 1 2 (sqrt 5) 20 20),
        mode1 = Some (SquareMode 2 1 (sqrt 5) (20 * 1000 powr (1 / 41)) (20 * 1000 powr (1 / 41))),
        alpha = 2 / 5\<rparr>
   \<and> nodalPoints (sweepRenderer (2 / 5)) = fieldPoints lowField
   \<and> fieldMaxAbs lowField = 2 / 5
   \<and> fieldThreshold lowField = 4 / 125
   \<and> fieldThreshold lowField \<noteq> 0.08 * max (fieldMaxAbs lowField) 1"
proof -
  have c: "computeBlendInfo (sweepRenderer (2 / 5)) =
     \<lparr>BlendInfo.shape = Square, BlendInfo.freqHz = 20 * 1000 powr ((2 / 5) / 41),
      BlendInfo.plateSize = 1,
      mode0 = Some (SquareMode 1 2 (sqrt 5) 20 20),
      mode1 = Some (SquareMode 2 1 (sqrt 5) (20 * 1000 powr (1 / 41)) (20 * 1000 powr (1 / 41))),
      alpha = 2 / 5\<rparr>"
    by (rule computeBlendInfo_sweep) simp_all
  have b: "blendInfo (sweepRenderer (2 / 5)) = Some (computeBlendInfo (sweepRenderer (2 / 5)))"
    unfolding sweepRenderer_def by (rule updateParams_blendInfo)
  have pts: "nodalPoints (sweepRenderer (2 / 5)) = fieldPoints lowField"
  proof -
    have "nodalPoints (sweepRenderer (2 / 5))
        = fieldPoints (sampleField (BlendInfo.shape (computeBlendInfo (sweepRenderer (2 / 5))))
              (SquareMode 1 2 (sqrt 5) 20 20)
              (SquareMode 2 1 (sqrt 5) (20 * 1000 powr (1 / 41)) (20 * 1000 powr (1 / 41)))
              (BlendInfo.alpha (computeBlendInfo (sweepRenderer (2 / 5))))
              (resolution (sweepRenderer (2 / 5))) (nodeThreshold (sweepRenderer (2 / 5)))
              (clientWidth (sweepRenderer (2 / 5)) / 2) (clientHeight (sweepRenderer (2 / 5)) / 2)
              (0.45 * min (clientWidth (sweepRenderer (2 / 5))) (clientHeight (sweepRenderer (2 / 5)))
                 * BlendInfo.plateSize (computeBlendInfo (sweepRenderer (2 / 5)))))"
      unfolding sweepRenderer_def
      by (rule updateParams_points;
          simp add: sweepRenderer_def[symmetric] c sweepRenderer_fields)
    also have "\<dots> = fieldPoints lowField"
      unfolding c sweepRenderer_fields lowField_def by simp
    finally show ?thesis .
  qed
  have M: "fieldMaxAbs lowField = 2 / 5"
    unfolding lowField_def by (rule square_swap_maxAbs) simp_all
  have T: "fieldThreshold lowField
      = 0.08 * (if 0 < fieldMaxAbs lowField then fieldMaxAbs lowField else 1)"
    unfolding lowField_def by (rule sampleField_threshold_eq)
  have T2: "fieldThreshold lowField = 4 / 125"
    unfolding T M by simp
  show ?thesis unfolding T2 M b c pts by simp
qed

section \<open>The primary and the secondary mode\<close>

text \<open>
  C2, as the code has it: with both modes present, \<open>mode0\<close> is the primary mode when
  \<open>alpha < 0.5\<close> and \<open>mode1\<close> otherwise, so at \<open>alpha = 0.5\<close> the primary mode is \<open>mode1\<close>;
  the other mode is the secondary one; \<open>mode0\<close> carries the weight \<open>1 - alpha\<close> and
  \<open>mode1\<close> the weight \<open>alpha\<close>; the primary weight is at least \<open>0.5\<close>.
\<close>

theorem summarize_primary:
  assumes "BlendInfo.mode0 b = Some a" and "BlendInfo.mode1 b = Some c"
  shows "primaryMode (summarize b modes)
           = Some (if BlendInfo.alpha b < 0.5 then \<lparr>mode = a, weight = 1 - BlendInfo.alpha b\<rparr>
                   else \<lparr>mode = c, weight = BlendInfo.alpha b\<rparr>)
       \<and> secondaryMode (summarize b modes)
           = Some (if BlendInfo.alpha b < 0.5 then \<lparr>mode = c, weight = BlendInfo.alpha b\<rparr>
                   else \<lparr>mode = a, weight = 1 - BlendInfo.alpha b\<rparr>)
       \<and> 0.5 \<le> weight (the (primaryMode (summarize b modes)))
       \<and> weight (the (secondaryMode (summarize b modes))) \<le> 0.5
       \<and> (if BlendInfo.alpha b = 0.5 then mode (the (primaryMode (summarize b modes))) = c
           else weight (the (secondaryMode (summarize b modes))) < 0.5)"
  using assms by (simp add: summarize_def Let_def)

theorem summarize_primary_witness:
  "primaryMode (summarize tieBlend (buildSquareModes 7 7))
     = Some \<lparr>mode = SquareMode 2 1 (sqrt 5) (20 * 1000 powr (1 / 41)) (20 * 1000 powr (1 / 41)),
             weight = 1 / 2\<rparr>
   \<and> secondaryMode (summarize tieBlend (buildSquareModes 7 7))
     = Some \<lparr>mode = SquareMode 1 2 (sqrt 5) 20 20, weight = 1 / 2\<rparr>"
  using summarize_primary[of tieBlend "SquareMode 1 2 (sqrt 5) 20 20"
      "SquareMode 2 1 (sqrt 5) (20 * 1000 powr (1 / 41)) (20 * 1000 powr (1 / 41))"
      "buildSquareModes 7 7"]
  by (simp add: tieBlend_def)

text \<open>
  The claim as stated fails at the tie: in the blend descriptor \<open>tieBlend\<close> both modes
  are present, \<open>alpha\<close> is \<open>1/2\<close> and both weights are \<open>1/2\<close>, and the summary names
  \<open>mode1\<close>, not \<open>mode0\<close>, as the primary mode.
\<close>

theorem summarize_tie_counterexample:
  "BlendInfo.alpha tieBlend = 1 / 2
   \<and> 1 - BlendInfo.alpha tieBlend = 1 / 2
   \<and> BlendInfo.mode0 tieBlend = Some (SquareMode 1 2 (sqrt 5) 20 20)
   \<and> BlendInfo.mode1 tieBlend
       = Some (SquareMode 2 1 (sqrt 5) (20 * 1000 powr (1 / 41)) (20 * 1000 powr (1 / 41)))
   \<and> primaryMode (summarize tieBlend (buildSquareModes 7 7))
       = Some \<lparr>mode = SquareMode 2 1 (sqrt 5) (20 * 1000 powr (1 / 41)) (20 * 1000 powr (1 / 41)),
               weight = 1 / 2\<rparr>
   \<and> secondaryMode (summarize tieBlend (buildSquareModes 7 7))
       = Some \<lparr>mode = SquareMode 1 2 (sqrt 5) 20 20, weight = 1 / 2\<rparr>
   \<and> map_option mode (primaryMode (summarize tieBlend (buildSquareModes 7 7)))
       \<noteq> BlendInfo.mode0 tieBlend"
  by (simp add: summarize_def Let_def tieBlend_def)

end
